theory Spec2Isabelle
  imports Main "HOL-Library.AList"
begin

section \<open>The default-app selector: \<open>validApp\<close> and \<open>toDefaultApp\<close>\<close>

text \<open>
  A JavaScript string is a sequence of code units; the model uses \<open>string\<close>, one
  \<open>char\<close> per code unit. The pattern of the source is
  \<^verbatim>\<open>/^([a-zA-Z0-9-_.]{1,100})\/([a-zA-Z0-9-_.]{1,100})$/\<close>
  with no flags: \<open>^\<close> and \<open>$\<close> anchor at the two ends of the input, a class is a list
  of inclusive code-unit ranges (after the range \<open>0-9\<close> the characters \<open>-\<close>, \<open>_\<close> and
  \<open>.\<close> stand for themselves), and \<open>{m,n}\<close> is a greedy quantifier that the matcher
  backtracks over, longest repetition first.
\<close>

type_synonym ClassRanges = "(char \<times> char) list"

definition class_member :: "ClassRanges \<Rightarrow> char \<Rightarrow> bool" where
  "class_member rs c =
     list_ex (\<lambda>(lo, hi). (of_char lo :: nat) \<le> of_char c \<and> (of_char c :: nat) \<le> of_char hi) rs"

datatype Term =
    Group ClassRanges nat nat   \<comment> \<open>\<open>([...]{lo,hi})\<close>: a capturing group around a quantified class\<close>
  | Lit char                    \<comment> \<open>one literal character\<close>

definition appClass :: ClassRanges where
  "appClass = [(CHR ''a'', CHR ''z''), (CHR ''A'', CHR ''Z''), (CHR ''0'', CHR ''9''),
               (CHR ''-'', CHR ''-''), (CHR ''_'', CHR ''_''), (CHR ''.'', CHR ''.'')]"

definition validApp :: "Term list" where
  "validApp = [Group appClass 1 100, Lit CHR ''/'', Group appClass 1 100]"

text \<open>The longest repetition a greedy quantifier with upper bound \<open>hi\<close> can take.\<close>

fun run_length :: "ClassRanges \<Rightarrow> nat \<Rightarrow> string \<Rightarrow> nat" where
  "run_length rs 0 s = 0"
| "run_length rs (Suc n) [] = 0"
| "run_length rs (Suc n) (c # s) = (if class_member rs c then Suc (run_length rs n s) else 0)"

text \<open>
  Backtracking: the continuation \<open>k\<close> is tried with \<open>n\<close> repetitions, then \<open>n - 1\<close>, and
  so on down to the lower bound \<open>lo\<close>; the first success is the match.
\<close>

fun backtrack :: "(nat \<Rightarrow> 'a option) \<Rightarrow> nat \<Rightarrow> nat \<Rightarrow> 'a option" where
  "backtrack k lo 0 = (if 0 < lo then None else k 0)"
| "backtrack k lo (Suc n) =
     (if Suc n < lo then None
      else case k (Suc n) of Some r \<Rightarrow> Some r | None \<Rightarrow> backtrack k lo n)"

text \<open>
  \<open>match_terms ts s\<close> matches the whole of \<open>s\<close> (the pattern is anchored at both ends)
  and returns the captures of the groups, in order.
\<close>

fun match_terms :: "Term list \<Rightarrow> string \<Rightarrow> string list option" where
  "match_terms [] s = (if s = [] then Some [] else None)"
| "match_terms (Lit c # ts) s =
     (case s of [] \<Rightarrow> None | x # xs \<Rightarrow> if x = c then match_terms ts xs else None)"
| "match_terms (Group rs lo hi # ts) s =
     backtrack (\<lambda>j. map_option ((#) (take j s)) (match_terms ts (drop j s))) lo
       (run_length rs hi s)"

record DefaultApp =
  ownerName :: string
  appName :: string
  "identifier" :: string

text \<open>\<open>None\<close> is the \<open>null\<close> the source returns when the pattern does not match.\<close>

definition toDefaultApp :: "string \<Rightarrow> DefaultApp option" where
  "toDefaultApp app =
     (case match_terms validApp app of
        Some [m1, m2] \<Rightarrow>
          Some \<lparr>ownerName = m1, appName = m2, identifier = m1 @ ''/'' @ m2\<rparr>
      | _ \<Rightarrow> None)"

text \<open>
  The pattern as the specification words it: two segments of 1 to 100 characters from
  \<open>[A-Za-z0-9-_.]\<close>, separated by one slash.
\<close>

definition spec_char :: "char \<Rightarrow> bool" where
  "spec_char c \<longleftrightarrow>
     c \<in> set ''ABCDEFGHIJKLMNOPQRSTUVWXYZabcdefghijklmnopqrstuvwxyz0123456789-_.''"

definition spec_segment :: "string \<Rightarrow> bool" where
  "spec_segment x \<longleftrightarrow> 1 \<le> length x \<and> length x \<le> 100 \<and> list_all spec_char x"

definition spec_valid :: "string \<Rightarrow> string \<Rightarrow> string \<Rightarrow> bool" where
  "spec_valid app owner name \<longleftrightarrow>
     app = owner @ ''/'' @ name \<and> spec_segment owner \<and> spec_segment name"

section \<open>JavaScript values\<close>

text \<open>
  The constructor of \<open>ProfileImpl\<close> takes \<open>fileContents: any\<close>: what \<open>JSON.parse\<close> read
  from the profile file, or the user object a caller hands to \<open>saveUser\<close>. Such values
  are modelled as trees. An object is the list of its own properties in property order,
  and its prototype is \<open>Object.prototype\<close>, as for every object \<open>JSON.parse\<close> makes; the
  one object whose prototype can change is the target of \<open>Object.assign\<close> in \<open>saveUser\<close>.
  Functions and accessor properties of the values are not modelled. Numbers are
  restricted to integers (no \<open>NaN\<close>, no infinities, no fractions).
\<close>

datatype jsval =
    Undefined
  | Null
  | Bool bool
  | Num int
  | Str string
  | Arr "jsval list"
  | Obj "(string \<times> jsval) list"

text \<open>\<open>ToBoolean\<close>: what \<open>||\<close>, \<open>!\<close> and \<open>if\<close> test.\<close>

fun truthy :: "jsval \<Rightarrow> bool" where
  "truthy Undefined = False"
| "truthy Null = False"
| "truthy (Bool b) = b"
| "truthy (Num n) = (n \<noteq> 0)"
| "truthy (Str s) = (s \<noteq> [])"
| "truthy (Arr xs) = True"
| "truthy (Obj kvs) = True"

text \<open>\<open>a || b\<close>.\<close>

definition js_or :: "jsval \<Rightarrow> jsval \<Rightarrow> jsval" where
  "js_or a b = (if truthy a then a else b)"

text \<open>
  What the program can throw, or a promise can reject with. \<open>FsError c\<close> is an error of
  the \<open>fs\<close> module whose \<open>code\<close> property is \<open>c\<close>; the other errors have no \<open>code\<close>.
\<close>

datatype exn =
    TypeError
  | SyntaxError
  | FsError string
  | TokenStoreError string

fun code :: "exn \<Rightarrow> string option" where
  "code (FsError c) = Some c"
| "code e = None"

text \<open>
  \<open>v.k\<close> for a property name \<open>k\<close> that no built-in prototype defines (the module reads
  \<open>userId\<close>, \<open>id\<close>, \<open>userName\<close>, \<open>name\<close>, \<open>displayName\<close>, \<open>email\<close>, \<open>environment\<close> and
  \<open>defaultApp\<close>): reading a property of \<open>undefined\<close> or \<open>null\<close> throws a \<open>TypeError\<close>, a
  property an object does not have reads as \<open>undefined\<close>, and so does any such
  property of a boolean, a number, a string or an array.
\<close>

fun nullish :: "jsval \<Rightarrow> bool" where
  "nullish Undefined = True"
| "nullish Null = True"
| "nullish v = False"

fun prop_of :: "jsval \<Rightarrow> string \<Rightarrow> jsval" where
  "prop_of (Obj kvs) k = (case map_of kvs k of None \<Rightarrow> Undefined | Some v \<Rightarrow> v)"
| "prop_of v k = Undefined"

definition get_prop :: "jsval \<Rightarrow> string \<Rightarrow> exn + jsval" where
  "get_prop v k = (if nullish v then Inl TypeError else Inr (prop_of v k))"

text \<open>Decimal digits of an array index, as a property name.\<close>

fun decimal :: "nat \<Rightarrow> string" where
  "decimal n =
     (if n < 10 then [char_of (48 + n)] else decimal (n div 10) @ [char_of (48 + n mod 10)])"

text \<open>
  The own enumerable properties \<open>Object.assign\<close> copies from a source: those of an
  object, the elements of an array and the characters of a string under their indices,
  nothing for the other values.
\<close>

fun own_enumerable :: "jsval \<Rightarrow> (string \<times> jsval) list" where
  "own_enumerable (Obj kvs) = kvs"
| "own_enumerable (Arr xs) = zip (map decimal [0..<length xs]) xs"
| "own_enumerable (Str s) = zip (map decimal [0..<length s]) (map (\<lambda>c. Str [c]) s)"
| "own_enumerable v = []"

text \<open>
  The target of \<open>Object.assign\<close> while its properties are set: its own properties, and
  the properties a read finds through its prototype. A new object \<open>{}\<close> has the
  prototype \<open>Object.prototype\<close>, which has none of the properties the module reads.
\<close>

type_synonym target = "(string \<times> jsval) list \<times> (string \<times> jsval) list"

text \<open>
  What the setter of \<open>__proto__\<close> does with the value it is given: an object becomes the
  prototype, and reads then find its properties; \<open>null\<close> becomes the prototype, with no
  property to find; any other value is ignored (\<open>None\<close>).
\<close>

fun proto_props :: "jsval \<Rightarrow> (string \<times> jsval) list option" where
  "proto_props (Obj kvs) = Some kvs"
| "proto_props (Arr xs) = Some []"
| "proto_props Null = Some []"
| "proto_props v = None"

text \<open>
  \<open>target[k] = v\<close>, as \<open>Object.assign\<close> does it. The target has no own property
  \<open>__proto__\<close>, so setting that name runs the setter it inherits from \<open>Object.prototype\<close>
  and makes no own property. Every other name becomes an own property: one the target
  has keeps its place and takes the new value, a new one is added at the end.
\<close>

definition set_prop :: "string \<Rightarrow> jsval \<Rightarrow> target \<Rightarrow> target" where
  "set_prop k v t =
     (if k = ''__proto__''
      then (fst t, case proto_props v of Some ps \<Rightarrow> ps | None \<Rightarrow> snd t)
      else (AList.update k v (fst t), snd t))"

text \<open>
  \<open>Object.assign(target, ...sources)\<close>: each own enumerable property of each source is
  set on the target in turn. An own property \<open>__proto__\<close> of a source, as \<open>JSON.parse\<close>
  makes one for the key \<open>"__proto__"\<close>, is among them.
\<close>

definition Object_assign :: "target \<Rightarrow> jsval list \<Rightarrow> target" where
  "Object_assign target sources =
     fold (\<lambda>src t. fold (\<lambda>(k, v). set_prop k v) (own_enumerable src) t) sources target"

text \<open>
  The object as a property read sees it: the own properties first, then those of the
  prototype.
\<close>

definition readable :: "target \<Rightarrow> jsval" where
  "readable t = Obj (fst t @ snd t)"

text \<open>
  What a read of the name \<open>k\<close> finds on \<open>Object.assign({}, user, ...)\<close> for a user object
  with the properties \<open>kvs\<close>: the user's own property and, where it has none, the property
  of the value under the user's own \<open>__proto__\<close>, which the assignment made the prototype.
\<close>

definition user_field :: "(string \<times> jsval) list \<Rightarrow> string \<Rightarrow> jsval" where
  "user_field kvs k =
     (case map_of kvs k of
        Some v \<Rightarrow> v
      | None \<Rightarrow> prop_of (prop_of (Obj kvs) ''__proto__'') k)"

subsection \<open>JSON\<close>

text \<open>
  The profile file holds text. The model does not spell the text out: a text that
  \<open>JSON.parse\<close> accepts is represented by the value \<open>JSON.parse\<close> reads from it, any other
  text by \<open>Malformed\<close>. \<open>JSON.stringify\<close> is then the function from a value to the value
  its output parses back to: a property whose value is \<open>undefined\<close> is left out, an
  array element that is \<open>undefined\<close> is written as \<open>null\<close>, everything else is kept. For
  \<open>undefined\<close> itself \<open>JSON.stringify\<close> returns \<open>undefined\<close>, not a text.
\<close>

datatype file_text = JsonText jsval | Malformed

fun json_norm :: "jsval \<Rightarrow> jsval"
  and json_norm_elems :: "jsval list \<Rightarrow> jsval list"
  and json_norm_props :: "(string \<times> jsval) list \<Rightarrow> (string \<times> jsval) list" where
  "json_norm (Arr xs) = Arr (json_norm_elems xs)"
| "json_norm (Obj kvs) = Obj (json_norm_props kvs)"
| "json_norm Undefined = Undefined"
| "json_norm Null = Null"
| "json_norm (Bool b) = Bool b"
| "json_norm (Num n) = Num n"
| "json_norm (Str s) = Str s"
| "json_norm_elems [] = []"
| "json_norm_elems (x # xs) =
     (if x = Undefined then Null else json_norm x) # json_norm_elems xs"
| "json_norm_props [] = []"
| "json_norm_props ((k, v) # kvs) =
     (if v = Undefined then json_norm_props kvs else (k, json_norm v) # json_norm_props kvs)"

definition JSON_stringify :: "jsval \<Rightarrow> file_text option" where
  "JSON_stringify v = (if v = Undefined then None else Some (JsonText (json_norm v)))"

fun JSON_parse :: "file_text \<Rightarrow> exn + jsval" where
  "JSON_parse (JsonText v) = Inr v"
| "JSON_parse Malformed = Inl SyntaxError"

text \<open>A value with no \<open>undefined\<close> anywhere inside: the values \<open>JSON.parse\<close> returns.\<close>

fun json_value :: "jsval \<Rightarrow> bool"
  and json_values :: "jsval list \<Rightarrow> bool"
  and json_members :: "(string \<times> jsval) list \<Rightarrow> bool" where
  "json_value Undefined = False"
| "json_value Null = True"
| "json_value (Bool b) = True"
| "json_value (Num n) = True"
| "json_value (Str s) = True"
| "json_value (Arr xs) = json_values xs"
| "json_value (Obj kvs) = json_members kvs"
| "json_values [] = True"
| "json_values (x # xs) = (json_value x \<and> json_values xs)"
| "json_members [] = True"
| "json_members ((k, v) # kvs) = (json_value v \<and> json_members kvs)"

section \<open>The process and its collaborators\<close>

text \<open>
  A \<open>ProfileImpl\<close> instance. The fields are declared \<open>string\<close> (and \<open>DefaultApp\<close>) in the
  source, but the constructor copies them unchecked from an \<open>any\<close>, so each holds a
  JavaScript value. \<open>oid\<close> is the identity of the instance: every \<open>new ProfileImpl\<close>
  takes a fresh one, and two references are to the same instance when the \<open>oid\<close>s
  agree. The module never assigns to a field after construction.
\<close>

record ProfileImpl =
  oid :: nat
  userId :: jsval
  userName :: jsval
  displayName :: jsval
  email :: jsval
  environment :: jsval
  defaultApp :: jsval

text \<open>
  The calls the module makes to the file system and to the token store, in the order
  it makes them. The profile path \<open>getProfileFilename()\<close> is the same in every call
  and is left out.
\<close>

datatype 'tok event =
    StatSync
  | ReadFileSync
  | MkdirpSync
  | WriteFileSync file_text
  | UnlinkSync
  | TokenSet jsval 'tok
  | TokenRemove jsval

text \<open>What is at the profile path.\<close>

datatype node = Absent | RegularFile file_text | Directory

text \<open>
  The state of the process and of its surroundings: the module variable
  \<open>currentProfile\<close> (\<open>None\<close> is \<open>null\<close>), the identity the next instance takes, the profile
  path, and the token store. \<open>fsFault = Some c\<close> makes every file-system call fail with
  an error of code \<open>c\<close> (permission denied, a missing or unreadable directory, a full
  disk); \<open>tokenFault = Some m\<close> makes every token-store call reject. The token type
  \<open>TokenValueType\<close> is declared outside this file and is the parameter \<open>'tok\<close>.
\<close>

record 'tok world =
  currentProfile :: "ProfileImpl option"
  nextOid :: nat
  node :: node
  fsFault :: "string option"
  tokens :: "(jsval \<times> 'tok) list"
  tokenFault :: "string option"
  trace :: "'tok event list"

definition called :: "'tok event \<Rightarrow> 'tok world \<Rightarrow> 'tok world" where
  "called e w = w\<lparr>trace := trace w @ [e]\<rparr>"

text \<open>A new process on the same machine: the module variable is \<open>null\<close> again.\<close>

definition restart :: "'tok world \<Rightarrow> 'tok world" where
  "restart w = w\<lparr>currentProfile := None\<rparr>"

subsection \<open>The file system at the profile path\<close>

text \<open>\<open>fs.statSync(filename).isFile()\<close>.\<close>

definition statSync_isFile :: "'tok world \<Rightarrow> (exn + bool) \<times> 'tok world" where
  "statSync_isFile w =
     (let w' = called StatSync w in
      case fsFault w of
        Some c \<Rightarrow> (Inl (FsError c), w')
      | None \<Rightarrow>
          (case node w of
             Absent \<Rightarrow> (Inl (FsError ''ENOENT''), w')
           | RegularFile t \<Rightarrow> (Inr True, w')
           | Directory \<Rightarrow> (Inr False, w')))"

definition readFileSync :: "'tok world \<Rightarrow> (exn + file_text) \<times> 'tok world" where
  "readFileSync w =
     (let w' = called ReadFileSync w in
      case fsFault w of
        Some c \<Rightarrow> (Inl (FsError c), w')
      | None \<Rightarrow>
          (case node w of
             Absent \<Rightarrow> (Inl (FsError ''ENOENT''), w')
           | RegularFile t \<Rightarrow> (Inr t, w')
           | Directory \<Rightarrow> (Inl (FsError ''EISDIR''), w')))"

text \<open>\<open>mkdirp.sync(getProfileDir())\<close>: the directory exists afterwards, or the call throws.\<close>

definition mkdirp_sync :: "'tok world \<Rightarrow> (exn + unit) \<times> 'tok world" where
  "mkdirp_sync w =
     (let w' = called MkdirpSync w in
      case fsFault w of
        Some c \<Rightarrow> (Inl (FsError c), w')
      | None \<Rightarrow> (Inr (), w'))"

text \<open>\<open>fs.writeFileSync\<close> creates the file or replaces its contents.\<close>

definition writeFileSync :: "file_text \<Rightarrow> 'tok world \<Rightarrow> (exn + unit) \<times> 'tok world" where
  "writeFileSync t w =
     (let w' = called (WriteFileSync t) w in
      case fsFault w of
        Some c \<Rightarrow> (Inl (FsError c), w')
      | None \<Rightarrow>
          (case node w of
             Directory \<Rightarrow> (Inl (FsError ''EISDIR''), w')
           | _ \<Rightarrow> (Inr (), w'\<lparr>node := RegularFile t\<rparr>)))"

definition unlinkSync :: "'tok world \<Rightarrow> (exn + unit) \<times> 'tok world" where
  "unlinkSync w =
     (let w' = called UnlinkSync w in
      case fsFault w of
        Some c \<Rightarrow> (Inl (FsError c), w')
      | None \<Rightarrow>
          (case node w of
             Absent \<Rightarrow> (Inl (FsError ''ENOENT''), w')
           | RegularFile t \<Rightarrow> (Inr (), w'\<lparr>node := Absent\<rparr>)
           | Directory \<Rightarrow> (Inl (FsError ''EISDIR''), w')))"

subsection \<open>The token store\<close>

text \<open>
  Modelled from the spec: the token store (\<open>../token-store\<close>) is not part of the source
  file. Its contract is \<open>set(key, tokenValue) \<rightarrow> void\<close> and \<open>remove(key) \<rightarrow> void\<close>, both
  asynchronous; a fault of the store is a rejected promise. The store is a key-value
  list; removing a key that is not there resolves.
\<close>

definition tokenStore_set :: "jsval \<Rightarrow> 'tok \<Rightarrow> 'tok world \<Rightarrow> (exn + unit) \<times> 'tok world" where
  "tokenStore_set key tokenValue w =
     (let w' = called (TokenSet key tokenValue) w in
      case tokenFault w of
        Some m \<Rightarrow> (Inl (TokenStoreError m), w')
      | None \<Rightarrow> (Inr (), w'\<lparr>tokens := AList.update key tokenValue (tokens w)\<rparr>))"

definition tokenStore_remove :: "jsval \<Rightarrow> 'tok world \<Rightarrow> (exn + unit) \<times> 'tok world" where
  "tokenStore_remove key w =
     (let w' = called (TokenRemove key) w in
      case tokenFault w of
        Some m \<Rightarrow> (Inl (TokenStoreError m), w')
      | None \<Rightarrow> (Inr (), w'\<lparr>tokens := AList.delete key (tokens w)\<rparr>))"

section \<open>The module\<close>

text \<open>
  Every operation takes the state and returns its outcome with the new state. \<open>Inl e\<close>
  is a throw of \<open>e\<close> (for the asynchronous operations: a throw or a rejection with \<open>e\<close>);
  what the operation did before it failed stays done.
\<close>

text \<open>\<open>new ProfileImpl(fileContents)\<close>.\<close>

definition new_ProfileImpl :: "jsval \<Rightarrow> 'tok world \<Rightarrow> (exn + ProfileImpl) \<times> 'tok world" where
  "new_ProfileImpl fileContents w =
     (if nullish fileContents then (Inl TypeError, w)
      else
        (Inr \<lparr>oid = nextOid w,
              userId = js_or (prop_of fileContents ''userId'') (prop_of fileContents ''id''),
              userName = js_or (prop_of fileContents ''userName'') (prop_of fileContents ''name''),
              displayName = prop_of fileContents ''displayName'',
              email = prop_of fileContents ''email'',
              environment = prop_of fileContents ''environment'',
              defaultApp = prop_of fileContents ''defaultApp''\<rparr>,
         w\<lparr>nextOid := Suc (nextOid w)\<rparr>))"

text \<open>The object literal \<open>save()\<close> builds from the receiver and hands to \<open>JSON.stringify\<close>.\<close>

definition profile_literal :: "ProfileImpl \<Rightarrow> jsval" where
  "profile_literal this =
     Obj [(''userId'', userId this),
          (''userName'', userName this),
          (''displayName'', displayName this),
          (''email'', email this),
          (''environment'', environment this),
          (''defaultApp'', defaultApp this)]"

text \<open>\<open>save()\<close>; the instance it returns is the receiver.\<close>

definition save :: "ProfileImpl \<Rightarrow> 'tok world \<Rightarrow> (exn + ProfileImpl) \<times> 'tok world" where
  "save this w =
     (let profile = profile_literal this
      in case mkdirp_sync w of
           (Inl e, w1) \<Rightarrow> (Inl e, w1)
         | (Inr u, w1) \<Rightarrow>
             (case JSON_stringify profile of
                None \<Rightarrow> (Inl TypeError, w1)
              | Some t \<Rightarrow>
                  (case writeFileSync t w1 of
                     (Inl e, w2) \<Rightarrow> (Inl e, w2)
                   | (Inr u, w2) \<Rightarrow> (Inr this, w2))))"

definition setAccessToken :: "ProfileImpl \<Rightarrow> 'tok \<Rightarrow> 'tok world \<Rightarrow> (exn + ProfileImpl) \<times> 'tok world" where
  "setAccessToken this token w =
     (case tokenStore_set (userName this) token w of
        (Inl e, w1) \<Rightarrow> (Inl e, w1)
      | (Inr u, w1) \<Rightarrow> (Inr this, w1))"

definition logout :: "ProfileImpl \<Rightarrow> 'tok world \<Rightarrow> (exn + unit) \<times> 'tok world" where
  "logout this w =
     (case tokenStore_remove (userName this) w of
        (Inl e, w1) \<Rightarrow> (Inl e, w1)
      | (Inr u, w1) \<Rightarrow>
          (case unlinkSync w1 of
             (Inl err, w2) \<Rightarrow>
               (if code err \<noteq> Some ''ENOENT'' then (Inl err, w2) else (Inr (), w2))
           | (Inr u, w2) \<Rightarrow> (Inr (), w2)))"

definition fileExists :: "'tok world \<Rightarrow> (exn + bool) \<times> 'tok world" where
  "fileExists w =
     (case statSync_isFile w of
        (Inl err, w1) \<Rightarrow>
          (if code err \<noteq> Some ''ENOENT'' then (Inl err, w1) else (Inr False, w1))
      | (Inr b, w1) \<Rightarrow> (Inr b, w1))"

text \<open>\<open>loadProfile()\<close>; \<open>Inr None\<close> is the \<open>null\<close> it returns when there is no file.\<close>

definition loadProfile :: "'tok world \<Rightarrow> (exn + ProfileImpl option) \<times> 'tok world" where
  "loadProfile w =
     (case fileExists w of
        (Inl e, w1) \<Rightarrow> (Inl e, w1)
      | (Inr False, w1) \<Rightarrow> (Inr None, w1)
      | (Inr True, w1) \<Rightarrow>
          (case readFileSync w1 of
             (Inl e, w2) \<Rightarrow> (Inl e, w2)
           | (Inr profileContents, w2) \<Rightarrow>
               (case JSON_parse profileContents of
                  Inl e \<Rightarrow> (Inl e, w2)
                | Inr profile \<Rightarrow>
                    (case new_ProfileImpl profile w2 of
                       (Inl e, w3) \<Rightarrow> (Inl e, w3)
                     | (Inr p, w3) \<Rightarrow> (Inr (Some p), w3)))))"

text \<open>\<open>getUser()\<close>. An instance is an object, so \<open>!currentProfile\<close> holds for \<open>null\<close> only.\<close>

definition getUser :: "'tok world \<Rightarrow> (exn + ProfileImpl option) \<times> 'tok world" where
  "getUser w =
     (case currentProfile w of
        Some p \<Rightarrow> (Inr (Some p), w)
      | None \<Rightarrow>
          (case loadProfile w of
             (Inl e, w1) \<Rightarrow> (Inl e, w1)
           | (Inr r, w1) \<Rightarrow> (Inr r, w1\<lparr>currentProfile := r\<rparr>)))"

text \<open>
  \<open>saveUser(user, token, environment)\<close>. \<open>user.name\<close> is read before the token store is
  called, and throws for a \<open>user\<close> that is \<open>undefined\<close> or \<open>null\<close>.
\<close>

definition saveUser :: "jsval \<Rightarrow> 'tok \<Rightarrow> string \<Rightarrow> 'tok world \<Rightarrow> (exn + ProfileImpl) \<times> 'tok world" where
  "saveUser user token env w =
     (case get_prop user ''name'' of
        Inl e \<Rightarrow> (Inl e, w)
      | Inr key \<Rightarrow>
          (case tokenStore_set key token w of
             (Inl e, w1) \<Rightarrow> (Inl e, w1)
           | (Inr u, w1) \<Rightarrow>
               (case new_ProfileImpl
                       (readable (Object_assign ([], []) [user, Obj [(''environment'', Str env)]])) w1 of
                  (Inl e, w2) \<Rightarrow> (Inl e, w2)
                | (Inr profile, w2) \<Rightarrow>
                    (case save profile w2 of
                       (Inl e, w3) \<Rightarrow> (Inl e, w3)
                     | (Inr r, w3) \<Rightarrow> (Inr profile, w3)))))"

definition deleteUser :: "'tok world \<Rightarrow> (exn + unit) \<times> 'tok world" where
  "deleteUser w =
     (case getUser w of
        (Inl e, w1) \<Rightarrow> (Inl e, w1)
      | (Inr None, w1) \<Rightarrow> (Inr (), w1)
      | (Inr (Some profile), w1) \<Rightarrow> logout profile w1)"

subsection \<open>Sequences of operations\<close>

text \<open>
  The calls a client of the module can make. A method call names its receiver; \<open>run\<close>
  performs the calls in order and keeps the state, whatever each call returned or threw.
\<close>

datatype 'tok call =
    GetUser
  | SaveUser jsval 'tok string
  | DeleteUser
  | Save ProfileImpl
  | SetAccessToken ProfileImpl 'tok
  | Logout ProfileImpl

fun perform :: "'tok call \<Rightarrow> 'tok world \<Rightarrow> 'tok world" where
  "perform GetUser w = snd (getUser w)"
| "perform (SaveUser user token env) w = snd (saveUser user token env w)"
| "perform DeleteUser w = snd (deleteUser w)"
| "perform (Save this) w = snd (save this w)"
| "perform (SetAccessToken this token) w = snd (setAccessToken this token w)"
| "perform (Logout this) w = snd (logout this w)"

definition run :: "'tok call list \<Rightarrow> 'tok world \<Rightarrow> 'tok world" where
  "run calls w = fold perform calls w"

subsection \<open>The invariant of a default app\<close>

text \<open>
  \<open>identifier\<close> is exactly \<open>"{ownerName}/{appName}"\<close>, for a \<open>defaultApp\<close> field that is not
  \<open>undefined\<close> or \<open>null\<close>.
\<close>

definition DefaultApp_obj :: "DefaultApp \<Rightarrow> jsval" where
  "DefaultApp_obj d =
     Obj [(''ownerName'', Str (ownerName d)), (''appName'', Str (appName d)),
          (''identifier'', Str (identifier d))]"

definition identifier_ok :: "jsval \<Rightarrow> bool" where
  "identifier_ok d =
     (case (prop_of d ''ownerName'', prop_of d ''appName'', prop_of d ''identifier'') of
        (Str owner, Str name, Str ident) \<Rightarrow> ident = owner @ ''/'' @ name
      | _ \<Rightarrow> False)"

subsection \<open>What a round trip through the profile file keeps\<close>

text \<open>
  The six fields the specification lists agree. The identity \<open>oid\<close> is not compared: a
  load makes a new instance.
\<close>

definition same_fields :: "ProfileImpl \<Rightarrow> ProfileImpl \<Rightarrow> bool" where
  "same_fields p q \<longleftrightarrow>
     userId q = userId p \<and> userName q = userName p \<and> displayName q = displayName p \<and>
     email q = email p \<and> environment q = environment p \<and> defaultApp q = defaultApp p"

text \<open>
  A field value that JSON writes and reads back unchanged: \<open>undefined\<close> (the property is
  left out, and reads as \<open>undefined\<close>), or a value with no \<open>undefined\<close> inside. Every
  string is one.
\<close>

definition storable :: "jsval \<Rightarrow> bool" where
  "storable v \<longleftrightarrow> v = Undefined \<or> json_value v"

text \<open>
  A value that \<open>v || undefined\<close> keeps: the file has no \<open>id\<close> or \<open>name\<close> property for the
  constructor to fall back on.
\<close>

definition kept_by_fallback :: "jsval \<Rightarrow> bool" where
  "kept_by_fallback v \<longleftrightarrow> v = Undefined \<or> truthy v"

definition round_trips :: "ProfileImpl \<Rightarrow> bool" where
  "round_trips p \<longleftrightarrow>
     kept_by_fallback (userId p) \<and> kept_by_fallback (userName p) \<and>
     storable (userId p) \<and> storable (userName p) \<and> storable (displayName p) \<and>
     storable (email p) \<and> storable (environment p) \<and> storable (defaultApp p)"

subsection \<open>Example states\<close>

definition acmeApp :: DefaultApp where
  "acmeApp = \<lparr>ownerName = ''acme'', appName = ''myapp'', identifier = ''acme/myapp''\<rparr>"

definition alice :: ProfileImpl where
  "alice = \<lparr>oid = 0, userId = Str ''u1'', userName = Str ''alice'',
            displayName = Str ''Alice'', email = Str ''alice@example.com'',
            environment = Str ''prod'', defaultApp = DefaultApp_obj acmeApp\<rparr>"

text \<open>No profile file, nothing cached, an empty token store.\<close>

definition noUser :: "string world" where
  "noUser = \<lparr>currentProfile = None, nextOid = 0, node = Absent, fsFault = None,
             tokens = [], tokenFault = None, trace = []\<rparr>"

text \<open>A new process of a user who logged in before: the file and the token are there.\<close>

definition loggedIn :: "string world" where
  "loggedIn = \<lparr>currentProfile = None, nextOid = 0,
               node = RegularFile (JsonText (profile_literal alice)), fsFault = None,
               tokens = [(Str ''alice'', ''secret'')], tokenFault = None, trace = []\<rparr>"

text \<open>A Profile whose \<open>userId\<close> is the empty string.\<close>

definition blankId :: ProfileImpl where
  "blankId = alice\<lparr>userId := Str []\<rparr>"

text \<open>A user object as the server returns it, with the field names \<open>id\<close> and \<open>name\<close>.\<close>

definition apiUser :: "(string \<times> jsval) list" where
  "apiUser = [(''id'', Str ''u1''), (''name'', Str ''alice''),
              (''displayName'', Str ''Alice''), (''email'', Str ''alice@example.com'')]"

text \<open>A user object that has both \<open>userName\<close> and \<open>name\<close>, and they differ.\<close>

definition twoNames :: "(string \<times> jsval) list" where
  "twoNames = [(''id'', Str ''u1''), (''userName'', Str ''alice''), (''name'', Str ''Alice L.'')]"

text \<open>A profile file whose default app has an \<open>identifier\<close> that is not \<open>owner/app\<close>.\<close>

definition otherApp :: jsval where
  "otherApp = Obj [(''ownerName'', Str ''acme''), (''appName'', Str ''myapp''),
                   (''identifier'', Str ''acme/other'')]"

definition editedFile :: "string world" where
  "editedFile = noUser\<lparr>node := RegularFile (JsonText
     (Obj [(''userId'', Str ''u1''), (''userName'', Str ''alice''), (''defaultApp'', otherApp)]))\<rparr>"

text \<open>
  A user object with an own property \<open>__proto__\<close>, as \<open>JSON.parse\<close> makes it from
  \<open>{"name": "mallory", "__proto__": {"userId": "evil", "displayName": "Mallory"}}\<close>.
\<close>

definition protoUser :: "(string \<times> jsval) list" where
  "protoUser = [(''name'', Str ''mallory''),
     (''__proto__'', Obj [(''userId'', Str ''evil''), (''displayName'', Str ''Mallory''),
                        (''defaultApp'', otherApp)])]"

section \<open>The matcher and the pattern of the specification\<close>

text \<open>The class of the source, as ranges, holds the characters the specification lists.\<close>

lemma class_spec: "class_member appClass c = spec_char c"
  by (cases c) (simp add: class_member_def appClass_def spec_char_def)

lemma backtrack_top:
  "(\<forall>j<n. k j = None) \<Longrightarrow> backtrack k lo n = (if lo \<le> n then k n else None)"
  by (induction n) (auto split: option.splits)

lemma run_length_le: "run_length rs n s \<le> n" "run_length rs n s \<le> length s"
  by (induction rs n s rule: run_length.induct) auto

lemma run_length_members: "i < run_length rs n s \<Longrightarrow> class_member rs (s ! i)"
  by (induction rs n s arbitrary: i rule: run_length.induct) (auto simp: nth_Cons' split: if_splits)

lemma run_length_all: "list_all (class_member rs) s \<Longrightarrow> length s \<le> n \<Longrightarrow> run_length rs n s = length s"
  by (induction rs n s rule: run_length.induct) auto

lemma run_length_stop:
  "list_all (class_member rs) s \<Longrightarrow> length s \<le> n \<Longrightarrow> \<not> class_member rs c \<Longrightarrow>
   run_length rs n (s @ c # t) = length s"
  by (induction rs n s rule: run_length.induct) (auto)

lemma run_length_full:
  "run_length rs n s = length s \<longleftrightarrow> length s \<le> n \<and> list_all (class_member rs) s"
  by (induction rs n s rule: run_length.induct) auto

lemma match_last_group:
  "match_terms [Group rs lo hi] s =
     (if lo \<le> length s \<and> length s \<le> hi \<and> list_all (class_member rs) s then Some [s] else None)"
proof -
  let ?n = "run_length rs hi s"
  let ?k = "\<lambda>j. map_option ((#) (take j s)) (match_terms [] (drop j s))"
  have low: "\<forall>j<?n. ?k j = None"
    using run_length_le(2) [of rs hi s] by auto
  have top: "?k ?n = (if ?n = length s then Some [s] else None)"
    using run_length_le(2) [of rs hi s] by auto
  have "match_terms [Group rs lo hi] s = (if lo \<le> ?n then ?k ?n else None)"
    using backtrack_top [OF low] by simp
  then show ?thesis
    unfolding top using run_length_full [of rs hi s] by auto
qed

lemma match_two_groups:
  assumes sep: "\<not> class_member rs c"
  shows "match_terms [Group rs lo hi, Lit c, Group rs' lo' hi'] s =
     (let n = run_length rs hi s in
      if lo \<le> n \<and> n < length s \<and> s ! n = c \<and>
         match_terms [Group rs' lo' hi'] (drop (Suc n) s) \<noteq> None
      then Some [take n s, drop (Suc n) s] else None)"
proof -
  let ?n = "run_length rs hi s"
  let ?ts = "[Lit c, Group rs' lo' hi']"
  let ?k = "\<lambda>j. map_option ((#) (take j s)) (match_terms ?ts (drop j s))"
  have low: "\<forall>j<?n. ?k j = None"
  proof (intro allI impI)
    fix j assume j: "j < ?n"
    then have "j < length s" using run_length_le(2) [of rs hi s] by simp
    then have d: "drop j s = s ! j # drop (Suc j) s" by (simp add: Cons_nth_drop_Suc)
    have "s ! j \<noteq> c" using run_length_members [OF j] sep by auto
    then show "?k j = None" unfolding d by simp
  qed
  have step: "match_terms [Group rs lo hi, Lit c, Group rs' lo' hi'] s = (if lo \<le> ?n then ?k ?n else None)"
    using backtrack_top [OF low] by simp
  have top: "?k ?n =
     (if ?n < length s \<and> s ! ?n = c \<and> match_terms [Group rs' lo' hi'] (drop (Suc ?n) s) \<noteq> None
      then Some [take ?n s, drop (Suc ?n) s] else None)"
  proof (cases "?n < length s")
    case True
    then have d: "drop ?n s = s ! ?n # drop (Suc ?n) s" by (simp add: Cons_nth_drop_Suc)
    have lit: "match_terms ?ts (drop ?n s) =
        (if s ! ?n = c then match_terms [Group rs' lo' hi'] (drop (Suc ?n) s) else None)"
      unfolding d by (simp only: match_terms.simps list.case)
    have grp: "match_terms [Group rs' lo' hi'] (drop (Suc ?n) s) = None \<or>
        match_terms [Group rs' lo' hi'] (drop (Suc ?n) s) = Some [drop (Suc ?n) s]"
      unfolding match_last_group by simp
    show ?thesis unfolding lit using True grp by auto
  next
    case False
    then show ?thesis by simp
  qed
  show ?thesis unfolding step top Let_def by auto
qed

lemma slash_not_member: "\<not> class_member appClass CHR ''/''"
  by (simp add: class_spec spec_char_def)

lemma class_spec_fun: "class_member appClass = spec_char"
  by (rule ext) (rule class_spec)

lemma match_validApp_iff:
  "match_terms validApp app = Some ms \<longleftrightarrow> (\<exists>owner name. ms = [owner, name] \<and> spec_valid app owner name)"
proof
  let ?n = "run_length appClass 100 app"
  assume m: "match_terms validApp app = Some ms"
  have c: "1 \<le> ?n" "?n < length app" "app ! ?n = CHR ''/''"
     "match_terms [Group appClass 1 100] (drop (Suc ?n) app) \<noteq> None"
     "ms = [take ?n app, drop (Suc ?n) app]"
    using m unfolding validApp_def match_two_groups [OF slash_not_member] Let_def
    by (auto split: if_splits)
  have app: "app = take ?n app @ ''/'' @ drop (Suc ?n) app"
    using c(2,3) id_take_nth_drop [of ?n app] by simp
  have "list_all (class_member appClass) (take ?n app)"
    unfolding list_all_length using run_length_members [of _ appClass 100 app] by simp
  then have owner: "spec_segment (take ?n app)"
    using c(1,2) run_length_le(1) [of appClass 100 app]
    by (simp add: spec_segment_def class_spec_fun)
  have name: "spec_segment (drop (Suc ?n) app)"
    using c(4) unfolding match_last_group
    by (simp add: spec_segment_def class_spec_fun split: if_splits)
  show "\<exists>owner name. ms = [owner, name] \<and> spec_valid app owner name"
    using app owner name c(5) unfolding spec_valid_def by blast
next
  assume "\<exists>owner name. ms = [owner, name] \<and> spec_valid app owner name"
  then obtain owner name where ms: "ms = [owner, name]" and v: "spec_valid app owner name"
    by blast
  have app: "app = owner @ CHR ''/'' # name" and o: "spec_segment owner" and n: "spec_segment name"
    using v by (simp_all add: spec_valid_def)
  have rl: "run_length appClass 100 app = length owner"
    unfolding app using o slash_not_member
    by (intro run_length_stop) (simp_all add: spec_segment_def class_spec_fun)
  have last: "match_terms [Group appClass 1 100] name = Some [name]"
    unfolding match_last_group using n by (simp add: spec_segment_def class_spec_fun)
  show "match_terms validApp app = Some ms"
    unfolding validApp_def match_two_groups [OF slash_not_member] Let_def rl
    using o last by (simp add: app ms spec_segment_def)
qed

text \<open>
  Claim C1. For every input string, \<open>toDefaultApp\<close> returns the structure with
  \<open>ownerName\<close> the segment before the slash, \<open>appName\<close> the segment after it and
  \<open>identifier\<close> the two joined by a slash, if and only if the string is two segments of
  1 to 100 characters of \<open>[A-Za-z0-9-_.]\<close> separated by one slash; for every other
  string it returns \<open>null\<close>.
\<close>

theorem toDefaultApp_iff_pattern:
  "(toDefaultApp app = Some d \<longleftrightarrow>
      (\<exists>owner name. spec_valid app owner name \<and>
         d = \<lparr>ownerName = owner, appName = name, identifier = owner @ ''/'' @ name\<rparr>)) \<and>
   (toDefaultApp app = None \<longleftrightarrow> \<not> (\<exists>owner name. spec_valid app owner name))"
proof (cases "match_terms validApp app")
  case None
  then have "\<not> (\<exists>owner name. spec_valid app owner name)"
    using match_validApp_iff [of app] by (metis option.distinct(1))
  then show ?thesis using None by (simp add: toDefaultApp_def)
next
  case (Some ms)
  then obtain owner name where ms: "ms = [owner, name]" and v: "spec_valid app owner name"
    using match_validApp_iff [of app ms] by blast
  have uniq: "\<And>o' n'. spec_valid app o' n' \<Longrightarrow> o' = owner \<and> n' = name"
  proof -
    fix o' n' assume "spec_valid app o' n'"
    then have "match_terms validApp app = Some [o', n']"
      using match_validApp_iff [of app "[o', n']"] by blast
    then show "o' = owner \<and> n' = name" using Some ms by simp
  qed
  have td: "toDefaultApp app =
      Some \<lparr>ownerName = owner, appName = name, identifier = owner @ ''/'' @ name\<rparr>"
    using Some ms by (simp add: toDefaultApp_def)
  let ?d = "\<lparr>ownerName = owner, appName = name, identifier = owner @ ''/'' @ name\<rparr>"
  have some: "(Some ?d = Some d) = (\<exists>owner name. spec_valid app owner name \<and>
         d = \<lparr>ownerName = owner, appName = name, identifier = owner @ ''/'' @ name\<rparr>)"
  proof
    assume "Some ?d = Some d"
    then have "d = ?d" by simp
    then show "\<exists>owner name. spec_valid app owner name \<and>
         d = \<lparr>ownerName = owner, appName = name, identifier = owner @ ''/'' @ name\<rparr>"
      using v by blast
  next
    assume "\<exists>owner name. spec_valid app owner name \<and>
         d = \<lparr>ownerName = owner, appName = name, identifier = owner @ ''/'' @ name\<rparr>"
    then obtain o' n' where v': "spec_valid app o' n'"
      and d: "d = \<lparr>ownerName = o', appName = n', identifier = o' @ ''/'' @ n'\<rparr>"
      by blast
    have "o' = owner" "n' = name" using uniq [OF v'] by simp_all
    then show "Some ?d = Some d" using d by simp
  qed
  have none: "(Some ?d = None) = (\<not> (\<exists>owner name. spec_valid app owner name))"
    using v by blast
  show ?thesis unfolding td using some none by (rule conjI)
qed

theorem toDefaultApp_iff_pattern_witness:
  "spec_valid ''acme/myapp'' ''acme'' ''myapp'' \<and>
   toDefaultApp ''acme/myapp'' =
     Some \<lparr>ownerName = ''acme'', appName = ''myapp'', identifier = ''acme/myapp''\<rparr>"
proof -
  have v: "spec_valid ''acme/myapp'' ''acme'' ''myapp''"
    by (simp add: spec_valid_def spec_segment_def spec_char_def)
  have "toDefaultApp ''acme/myapp'' =
     Some \<lparr>ownerName = ''acme'', appName = ''myapp'', identifier = ''acme'' @ ''/'' @ ''myapp''\<rparr>"
    using v toDefaultApp_iff_pattern [of "''acme/myapp''"] by blast
  then show ?thesis using v by simp
qed

section \<open>The constructor\<close>

text \<open>
  Claim C10. The constructor falls back on falsiness: for every input object, \<open>userId\<close>
  is the input's \<open>userId\<close> only when that is truthy and the input's \<open>id\<close> otherwise, and
  \<open>userName\<close> falls back to \<open>name\<close> in the same way. An input whose \<open>userId\<close> or
  \<open>userName\<close> is the empty string yields the input's \<open>id\<close> or \<open>name\<close>, which is
  \<open>undefined\<close> when the input has none: the empty string is not kept.
\<close>

theorem constructor_falsy_fallback:
  "\<exists>p w'. new_ProfileImpl (Obj kvs) w = (Inr p, w') \<and>
     userId p = (if truthy (prop_of (Obj kvs) ''userId'') then prop_of (Obj kvs) ''userId''
                 else prop_of (Obj kvs) ''id'') \<and>
     userName p = (if truthy (prop_of (Obj kvs) ''userName'') then prop_of (Obj kvs) ''userName''
                   else prop_of (Obj kvs) ''name'') \<and>
     (map_of kvs ''userId'' = Some (Str []) \<longrightarrow> userId p = prop_of (Obj kvs) ''id'') \<and>
     (map_of kvs ''userName'' = Some (Str []) \<longrightarrow> userName p = prop_of (Obj kvs) ''name'') \<and>
     (map_of kvs ''userId'' = Some (Str []) \<and> map_of kvs ''id'' = None \<longrightarrow> userId p = Undefined) \<and>
     (map_of kvs ''userName'' = Some (Str []) \<and> map_of kvs ''name'' = None \<longrightarrow>
        userName p = Undefined)"
  by (simp add: new_ProfileImpl_def js_or_def)

theorem constructor_falsy_fallback_witness:
  "map_of [(''userId'', Str []), (''userName'', Str []), (''name'', Str ''alice'')] ''userId''
     = Some (Str []) \<and>
   map_of [(''userId'', Str []), (''userName'', Str []), (''name'', Str ''alice'')] ''id'' = None \<and>
   fst (new_ProfileImpl
          (Obj [(''userId'', Str []), (''userName'', Str []), (''name'', Str ''alice'')]) noUser) =
     Inr \<lparr>oid = 0, userId = Undefined, userName = Str ''alice'', displayName = Undefined,
           email = Undefined, environment = Undefined, defaultApp = Undefined\<rparr>"
proof -
  let ?kvs = "[(''userId'', Str []), (''userName'', Str []), (''name'', Str ''alice'')]"
  obtain p w' where n: "new_ProfileImpl (Obj ?kvs) noUser = (Inr p, w')"
    and u: "map_of ?kvs ''userId'' = Some (Str []) \<and> map_of ?kvs ''id'' = None
              \<longrightarrow> userId p = Undefined"
    and v: "map_of ?kvs ''userName'' = Some (Str []) \<longrightarrow> userName p = prop_of (Obj ?kvs) ''name''"
    using constructor_falsy_fallback [of ?kvs noUser] by blast
  have "userId p = Undefined" "userName p = Str ''alice''"
    using u v by simp_all
  moreover have "p = \<lparr>oid = 0, userId = userId p, userName = userName p, displayName = Undefined,
           email = Undefined, environment = Undefined, defaultApp = Undefined\<rparr>"
    using n by (auto simp: new_ProfileImpl_def noUser_def)
  ultimately show ?thesis using n by simp
qed

section \<open>Saving and loading\<close>

lemma called_fields [simp]:
  "currentProfile (called e w) = currentProfile w"
  "nextOid (called e w) = nextOid w"
  "node (called e w) = node w"
  "fsFault (called e w) = fsFault w"
  "tokens (called e w) = tokens w"
  "tokenFault (called e w) = tokenFault w"
  "trace (called e w) = trace w @ [e]"
  by (simp_all add: called_def)

lemma restart_fields [simp]:
  "currentProfile (restart w) = None"
  "nextOid (restart w) = nextOid w"
  "node (restart w) = node w"
  "fsFault (restart w) = fsFault w"
  "tokens (restart w) = tokens w"
  "tokenFault (restart w) = tokenFault w"
  "trace (restart w) = trace w"
  by (simp_all add: restart_def)

subsection \<open>What JSON keeps\<close>

lemma json_norm_fixed:
  "json_value v \<Longrightarrow> json_norm v = v"
  "json_values xs \<Longrightarrow> json_norm_elems xs = xs"
  "json_members kvs \<Longrightarrow> json_norm_props kvs = kvs"
  by (induction v and xs and kvs rule: json_norm_json_norm_elems_json_norm_props.induct) auto

lemma json_norm_props_length: "length (json_norm_props kvs) \<le> length kvs"
  by (induction kvs) (auto split: prod.splits)

lemma json_norm_fixed_conv:
  "json_norm v = v \<Longrightarrow> v \<noteq> Undefined \<Longrightarrow> json_value v"
  "json_norm_elems xs = xs \<Longrightarrow> json_values xs"
  "json_norm_props kvs = kvs \<Longrightarrow> json_members kvs"
proof (induction v and xs and kvs rule: json_norm_json_norm_elems_json_norm_props.induct)
  case (11 k v kvs)
  show ?case
  proof (cases "v = Undefined")
    case True
    then have "length (json_norm_props kvs) = Suc (length kvs)" using 11(4) by simp
    then show ?thesis using json_norm_props_length [of kvs] by simp
  next
    case False
    then show ?thesis using 11 by auto
  qed
qed (auto split: if_splits)

lemma storable_iff: "storable v \<longleftrightarrow> json_norm v = v"
  unfolding storable_def using json_norm_fixed(1) json_norm_fixed_conv(1)
  by (cases "v = Undefined") auto

lemma json_norm_props_absent:
  "k \<notin> fst ` set kvs \<Longrightarrow> map_of (json_norm_props kvs) k = None"
  by (induction kvs) (auto split: prod.splits)

lemma map_of_json_norm_props:
  "distinct (map fst kvs) \<Longrightarrow>
   map_of (json_norm_props kvs) k =
     (case map_of kvs k of None \<Rightarrow> None
      | Some v \<Rightarrow> if v = Undefined then None else Some (json_norm v))"
  by (induction kvs) (auto simp: json_norm_props_absent split: prod.splits)

text \<open>Reading a property back from the text is reading it from the object, normalised.\<close>

lemma prop_of_json_norm:
  "distinct (map fst kvs) \<Longrightarrow> prop_of (json_norm (Obj kvs)) k = json_norm (prop_of (Obj kvs) k)"
  by (simp add: map_of_json_norm_props split: option.splits)

lemma JSON_parse_Inr: "JSON_parse t = Inr v \<longleftrightarrow> t = JsonText v"
  by (cases t) auto

subsection \<open>\<open>save\<close> and \<open>loadProfile\<close>\<close>

lemma save_cases:
  "save p w =
     (if fsFault w = None \<and> node w \<noteq> Directory
      then (Inr p, (called (WriteFileSync (JsonText (json_norm (profile_literal p))))
                     (called MkdirpSync w))
                   \<lparr>node := RegularFile (JsonText (json_norm (profile_literal p)))\<rparr>)
      else (Inl (FsError (case fsFault w of Some c \<Rightarrow> c | None \<Rightarrow> ''EISDIR'')),
            if fsFault w = None
            then called (WriteFileSync (JsonText (json_norm (profile_literal p)))) (called MkdirpSync w)
            else called MkdirpSync w))"
  by (auto simp: save_def mkdirp_sync_def writeFileSync_def JSON_stringify_def Let_def
      profile_literal_def split: option.splits node.splits)

lemma save_ok:
  assumes "save p w = (Inr r, w1)"
  shows "r = p" "fsFault w1 = None"
    "node w1 = RegularFile (JsonText (json_norm (profile_literal p)))"
    "nextOid w1 = nextOid w"
  using assms unfolding save_cases by (auto split: if_splits)

lemma save_trace:
  "trace (snd (save p w)) =
     trace w @ MkdirpSync #
       (if fsFault w = None then [WriteFileSync (JsonText (json_norm (profile_literal p)))] else [])"
  unfolding save_cases by simp

lemma save_cache: "currentProfile (snd (save p w)) = currentProfile w"
  unfolding save_cases by simp

lemma loadProfile_regular:
  assumes "fsFault w = None" "node w = RegularFile (JsonText v)" "\<not> nullish v"
  shows "loadProfile w =
     (Inr (Some \<lparr>oid = nextOid w,
              userId = js_or (prop_of v ''userId'') (prop_of v ''id''),
              userName = js_or (prop_of v ''userName'') (prop_of v ''name''),
              displayName = prop_of v ''displayName'',
              email = prop_of v ''email'',
              environment = prop_of v ''environment'',
              defaultApp = prop_of v ''defaultApp''\<rparr>),
      (called ReadFileSync (called StatSync w))\<lparr>nextOid := Suc (nextOid w)\<rparr>)"
  using assms
  by (simp add: loadProfile_def fileExists_def statSync_isFile_def readFileSync_def
      new_ProfileImpl_def Let_def)

lemma loadProfile_Some:
  assumes "loadProfile w = (Inr (Some q), w2)"
  shows "\<exists>v. node w = RegularFile (JsonText v) \<and> \<not> nullish v \<and> fsFault w = None \<and>
      defaultApp q = prop_of v ''defaultApp''"
  using assms
  by (auto simp: loadProfile_def fileExists_def statSync_isFile_def readFileSync_def
      new_ProfileImpl_def Let_def JSON_parse_Inr
      split: option.splits node.splits if_splits sum.splits)

lemma prop_of_saved:
  "prop_of (json_norm (profile_literal p)) k = json_norm (prop_of (profile_literal p) k)"
  unfolding profile_literal_def by (rule prop_of_json_norm) simp

text \<open>What a new process reads after a \<open>save\<close> that returned.\<close>

lemma load_after_save:
  assumes s: "save p w = (Inr r, w1)"
  shows "\<exists>w2. loadProfile (restart w1) =
     (Inr (Some \<lparr>oid = nextOid w,
              userId = js_or (json_norm (userId p)) Undefined,
              userName = js_or (json_norm (userName p)) Undefined,
              displayName = json_norm (displayName p),
              email = json_norm (email p),
              environment = json_norm (environment p),
              defaultApp = json_norm (defaultApp p)\<rparr>), w2)"
proof -
  have nn: "\<not> nullish (json_norm (profile_literal p))" by (simp add: profile_literal_def)
  have lit: "prop_of (profile_literal p) ''userId'' = userId p"
    "prop_of (profile_literal p) ''id'' = Undefined"
    "prop_of (profile_literal p) ''userName'' = userName p"
    "prop_of (profile_literal p) ''name'' = Undefined"
    "prop_of (profile_literal p) ''displayName'' = displayName p"
    "prop_of (profile_literal p) ''email'' = email p"
    "prop_of (profile_literal p) ''environment'' = environment p"
    "prop_of (profile_literal p) ''defaultApp'' = defaultApp p"
    by (simp_all add: profile_literal_def)
  show ?thesis
    using loadProfile_regular [of "restart w1" "json_norm (profile_literal p)", OF _ _ nn]
      save_ok(2,3,4) [OF s]
    by (simp add: prop_of_saved lit)
qed

lemma save_alice: "save alice noUser = (Inr alice, snd (save alice noUser))"
  unfolding save_cases by (simp add: noUser_def)

text \<open>
  Claim C2, as amended. For every Profile on which \<open>save()\<close> returns, a new process's
  \<open>loadProfile()\<close> returns a Profile, and its \<open>userId\<close>, \<open>userName\<close>, \<open>displayName\<close>,
  \<open>email\<close>, \<open>environment\<close> and \<open>defaultApp\<close> are those of the saved Profile exactly when
  the saved \<open>userId\<close> and \<open>userName\<close> are \<open>undefined\<close> or truthy (the constructor's
  \<open>||\<close> drops an empty string) and every field is \<open>undefined\<close> or a JSON value, as every
  string is.
\<close>

theorem save_load_round_trip:
  assumes s: "save p w = (Inr r, w1)"
  shows "\<exists>q w2. loadProfile (restart w1) = (Inr (Some q), w2) \<and>
           (same_fields p q \<longleftrightarrow> round_trips p)"
proof -
  obtain w2 q where l: "loadProfile (restart w1) = (Inr (Some q), w2)"
    and q: "q = \<lparr>oid = nextOid w,
              userId = js_or (json_norm (userId p)) Undefined,
              userName = js_or (json_norm (userName p)) Undefined,
              displayName = json_norm (displayName p),
              email = json_norm (email p),
              environment = json_norm (environment p),
              defaultApp = json_norm (defaultApp p)\<rparr>"
    using load_after_save [OF s] by blast
  have or_iff: "js_or (json_norm v) Undefined = v \<longleftrightarrow> kept_by_fallback v \<and> storable v" for v
    by (cases v) (auto simp: js_or_def kept_by_fallback_def storable_iff)
  have "same_fields p q \<longleftrightarrow> round_trips p"
    unfolding same_fields_def round_trips_def q
    by (simp add: or_iff storable_iff) blast
  then show ?thesis using l by blast
qed

theorem save_load_round_trip_witness:
  "save alice noUser = (Inr alice, snd (save alice noUser)) \<and> round_trips alice \<and>
   (\<exists>q w2. loadProfile (restart (snd (save alice noUser))) = (Inr (Some q), w2) \<and>
      same_fields alice q)"
proof -
  have rt: "round_trips alice"
    by (simp add: round_trips_def alice_def kept_by_fallback_def storable_def DefaultApp_obj_def)
  show ?thesis
    using save_load_round_trip [OF save_alice] rt save_alice by blast
qed

text \<open>
  The claim as stated fails for a Profile whose \<open>userId\<close> is the empty string: the file
  holds \<open>"userId": ""\<close>, and the constructor reads \<open>"" || undefined\<close>.
\<close>

theorem save_load_blank_userId_counterexample:
  "fst (save blankId noUser) = Inr blankId \<and>
   fst (loadProfile (restart (snd (save blankId noUser)))) =
     Inr (Some (blankId\<lparr>userId := Undefined\<rparr>)) \<and>
   \<not> same_fields blankId (blankId\<lparr>userId := Undefined\<rparr>)"
proof -
  have f: "fst (save blankId noUser) = Inr blankId"
    unfolding save_cases by (simp add: noUser_def)
  then have s: "save blankId noUser = (Inr blankId, snd (save blankId noUser))"
    by (metis prod.collapse)
  have "\<not> same_fields blankId (blankId\<lparr>userId := Undefined\<rparr>)"
    by (simp add: same_fields_def blankId_def)
  moreover have "fst (loadProfile (restart (snd (save blankId noUser)))) =
      Inr (Some (blankId\<lparr>userId := Undefined\<rparr>))"
    using load_after_save [OF s]
    by (auto simp: blankId_def alice_def noUser_def js_or_def DefaultApp_obj_def)
  ultimately show ?thesis using f by blast
qed

section \<open>\<open>getUser\<close>\<close>

lemma getUser_cached: "currentProfile w = Some p \<Longrightarrow> getUser w = (Inr (Some p), w)"
  by (simp add: getUser_def)

lemma fileExists_world: "snd (fileExists w) = called StatSync w"
  by (simp add: fileExists_def statSync_isFile_def Let_def split: option.splits node.splits)

text \<open>The outcome of \<open>fileExists\<close> depends on the profile path only.\<close>

lemma fileExists_same:
  "node w' = node w \<Longrightarrow> fsFault w' = fsFault w \<Longrightarrow> fst (fileExists w') = fst (fileExists w)"
  by (simp add: fileExists_def statSync_isFile_def Let_def split: option.splits node.splits)

lemma fileExists_ENOENT:
  "fst (statSync_isFile w) = Inl (FsError ''ENOENT'') \<Longrightarrow> fst (fileExists w) = Inr False"
  by (cases "statSync_isFile w") (simp add: fileExists_def)

lemma loadProfile_no_file:
  "fst (fileExists w) = Inr False \<Longrightarrow> loadProfile w = (Inr None, called StatSync w)"
  using fileExists_world [of w] by (cases "fileExists w") (simp add: loadProfile_def)

lemma loadProfile_None:
  "loadProfile w = (Inr None, w1) \<Longrightarrow> fst (fileExists w) = Inr False"
  by (cases "fileExists w")
     (auto simp: loadProfile_def new_ProfileImpl_def
       split: sum.splits bool.splits prod.splits if_splits)

lemma getUser_None:
  assumes "getUser w = (Inr None, w1)"
  shows "w1 = (called StatSync w)\<lparr>currentProfile := None\<rparr>" "fst (fileExists w1) = Inr False"
proof -
  obtain w' where l: "loadProfile w = (Inr None, w')" and w1: "w1 = w'\<lparr>currentProfile := None\<rparr>"
    using assms by (auto simp: getUser_def split: option.splits prod.splits sum.splits)
  have w': "w' = called StatSync w"
    using l loadProfile_no_file [OF loadProfile_None [OF l]] by simp
  show "w1 = (called StatSync w)\<lparr>currentProfile := None\<rparr>" by (simp add: w1 w')
  show "fst (fileExists w1) = Inr False"
    using loadProfile_None [OF l] fileExists_same [of w1 w] by (simp add: w1 w')
qed

lemma getUser_loggedIn: "fst (getUser loggedIn) = Inr (Some alice)"
  by (simp add: getUser_def loadProfile_def fileExists_def statSync_isFile_def readFileSync_def
      new_ProfileImpl_def Let_def loggedIn_def alice_def profile_literal_def js_or_def)

text \<open>
  Claim C5. When the profile file does not exist (\<open>statSync\<close> reports \<open>ENOENT\<close>) and
  nothing is cached, \<open>getUser()\<close> returns \<open>null\<close> and does not throw; all it did was the
  one \<open>statSync\<close>, and nothing is cached afterwards.
\<close>

theorem getUser_no_file:
  "currentProfile w = None \<Longrightarrow> fst (statSync_isFile w) = Inl (FsError ''ENOENT'') \<Longrightarrow>
   fst (getUser w) = Inr None \<and> currentProfile (snd (getUser w)) = None \<and>
   trace (snd (getUser w)) = trace w @ [StatSync]"
  by (simp add: getUser_def loadProfile_no_file fileExists_ENOENT)

theorem getUser_no_file_witness:
  "currentProfile noUser = None \<and> node noUser = Absent \<and>
   fst (statSync_isFile noUser) = Inl (FsError ''ENOENT'') \<and>
   fst (getUser noUser) = Inr None \<and> trace (snd (getUser noUser)) = [StatSync]"
proof -
  have h1: "currentProfile noUser = None" and h2: "node noUser = Absent"
    and h3: "fst (statSync_isFile noUser) = Inl (FsError ''ENOENT'')"
    and h4: "trace noUser = []"
    by (simp_all add: noUser_def statSync_isFile_def)
  show ?thesis using getUser_no_file [OF h1 h3] h1 h2 h3 h4 by simp
qed

text \<open>
  Claim C4. Whenever a \<open>getUser()\<close> call returns, the next \<open>getUser()\<close> call, with no
  call in between, returns the same: the same cached instance (the same \<open>oid\<close>), or
  \<open>null\<close> again. The second call makes no \<open>readFileSync\<close>: it makes no call at all when
  an instance is cached, and only the \<open>statSync\<close> of \<open>fileExists\<close> when the first call
  found no file.
\<close>

theorem getUser_twice:
  assumes g: "getUser w = (Inr r, w1)"
  shows "fst (getUser w1) = Inr r \<and>
         currentProfile (snd (getUser w1)) = r \<and>
         trace (snd (getUser w1)) = trace w1 @ (case r of None \<Rightarrow> [StatSync] | Some p \<Rightarrow> [])"
proof (cases r)
  case (Some p)
  have "currentProfile w1 = Some p"
    using g Some by (auto simp: getUser_def split: option.splits prod.splits sum.splits)
  then show ?thesis using Some by (simp add: getUser_cached)
next
  case None
  have "fst (fileExists w1) = Inr False"
    using g None getUser_None(2) by blast
  then have "loadProfile w1 = (Inr None, called StatSync w1)"
    by (rule loadProfile_no_file)
  moreover have "currentProfile w1 = None"
    using g None getUser_None(1) [of w w1] by simp
  ultimately show ?thesis using None by (simp add: getUser_def)
qed

theorem getUser_twice_witness:
  "getUser loggedIn = (Inr (Some alice), snd (getUser loggedIn)) \<and>
   fst (getUser (snd (getUser loggedIn))) = Inr (Some alice) \<and>
   trace (snd (getUser loggedIn)) = [StatSync, ReadFileSync] \<and>
   trace (snd (getUser (snd (getUser loggedIn)))) = [StatSync, ReadFileSync] \<and>
   getUser noUser = (Inr None, snd (getUser noUser)) \<and>
   fst (getUser (snd (getUser noUser))) = Inr None \<and>
   trace (snd (getUser (snd (getUser noUser)))) = [StatSync, StatSync]"
proof -
  have g: "getUser loggedIn = (Inr (Some alice), snd (getUser loggedIn))"
    using getUser_loggedIn by (metis prod.collapse)
  have t: "trace (snd (getUser loggedIn)) = [StatSync, ReadFileSync]"
    by (simp add: getUser_def loadProfile_def fileExists_def statSync_isFile_def
        readFileSync_def new_ProfileImpl_def Let_def loggedIn_def profile_literal_def)
  have fn: "fst (getUser noUser) = Inr None" and tn: "trace (snd (getUser noUser)) = [StatSync]"
    by (simp_all add: getUser_def loadProfile_def fileExists_def statSync_isFile_def
        Let_def noUser_def)
  have n: "getUser noUser = (Inr None, snd (getUser noUser))"
    using fn by (metis prod.collapse)
  have a: "fst (getUser (snd (getUser loggedIn))) = Inr (Some alice)"
    "trace (snd (getUser (snd (getUser loggedIn)))) = [StatSync, ReadFileSync]"
    using getUser_twice [OF g] t by simp_all
  have b: "fst (getUser (snd (getUser noUser))) = Inr None"
    "trace (snd (getUser (snd (getUser noUser)))) = [StatSync, StatSync]"
    using getUser_twice [OF n] tn by simp_all
  show ?thesis using g t n a b by blast
qed

section \<open>\<open>logout\<close>\<close>

lemma tokenStore_remove_ok:
  "tokenFault w = None \<Longrightarrow>
   tokenStore_remove k w =
     (Inr (), (called (TokenRemove k) w)\<lparr>tokens := AList.delete k (tokens w)\<rparr>)"
  by (simp add: tokenStore_remove_def)

lemma tokenStore_remove_fail:
  "tokenFault w = Some m \<Longrightarrow>
   tokenStore_remove k w = (Inl (TokenStoreError m), called (TokenRemove k) w)"
  by (simp add: tokenStore_remove_def)

text \<open>The outcome of \<open>unlinkSync\<close> depends on the profile path only.\<close>

lemma unlinkSync_same:
  "node w' = node w \<Longrightarrow> fsFault w' = fsFault w \<Longrightarrow> fst (unlinkSync w') = fst (unlinkSync w)"
  by (simp add: unlinkSync_def Let_def split: option.splits node.splits)

lemma unlinkSync_fields [simp]:
  "trace (snd (unlinkSync w)) = trace w @ [UnlinkSync]"
  "tokens (snd (unlinkSync w)) = tokens w"
  "tokenFault (snd (unlinkSync w)) = tokenFault w"
  "fsFault (snd (unlinkSync w)) = fsFault w"
  "currentProfile (snd (unlinkSync w)) = currentProfile w"
  by (simp_all add: unlinkSync_def Let_def split: option.splits node.splits)

lemma unlinkSync_node:
  "node (snd (unlinkSync w)) = (if fst (unlinkSync w) = Inr () then Absent else node w)"
  by (simp add: unlinkSync_def Let_def split: option.splits node.splits)

lemma unlinkSync_again:
  "fst (unlinkSync w) = Inr () \<Longrightarrow> fst (unlinkSync (snd (unlinkSync w))) = Inl (FsError ''ENOENT'')"
  by (simp add: unlinkSync_def Let_def split: option.splits node.splits)

lemma code_FsError: "code e = Some c \<longleftrightarrow> e = FsError c"
  by (cases e) auto

text \<open>\<open>logout\<close> when the token store resolves: only \<open>ENOENT\<close> is caught.\<close>

lemma logout_ok:
  assumes "tokenFault w = None"
  shows "logout p w =
    (let w1 = (called (TokenRemove (userName p)) w)
                \<lparr>tokens := AList.delete (userName p) (tokens w)\<rparr>
     in (if fst (unlinkSync w1) = Inl (FsError ''ENOENT'') then Inr () else fst (unlinkSync w1),
         snd (unlinkSync w1)))"
  using assms
  by (cases "unlinkSync ((called (TokenRemove (userName p)) w)
        \<lparr>tokens := AList.delete (userName p) (tokens w)\<rparr>)")
     (auto simp: logout_def tokenStore_remove_ok Let_def code_FsError split: sum.splits)

lemma logout_rejected:
  "tokenFault w = Some m \<Longrightarrow>
   logout p w = (Inl (TokenStoreError m), called (TokenRemove (userName p)) w)"
  by (simp add: logout_def tokenStore_remove_fail)

lemma logout_effects:
  assumes "tokenFault w = None"
  shows "trace (snd (logout p w)) = trace w @ [TokenRemove (userName p), UnlinkSync]"
    "tokens (snd (logout p w)) = AList.delete (userName p) (tokens w)"
    "tokenFault (snd (logout p w)) = None"
  using assms by (simp_all add: logout_ok Let_def)

lemma logout_cache: "currentProfile (snd (logout p w)) = currentProfile w"
proof (cases "tokenFault w")
  case None
  then show ?thesis by (simp add: logout_ok Let_def)
next
  case (Some m)
  then show ?thesis by (simp add: logout_rejected)
qed

text \<open>
  Claim C6. For every Profile, \<open>logout()\<close> first calls the token store to remove the entry
  under the Profile's \<open>userName\<close> and, once that resolved, deletes the profile file. If the
  file is already absent (\<open>unlinkSync\<close> throws \<open>ENOENT\<close>) \<open>logout()\<close> completes, so a second
  \<open>logout()\<close> after a first that completed completes as well; any other error of the
  deletion reaches the caller. If the token store rejects, \<open>logout()\<close> rejects with that and
  the file is not touched.
\<close>

theorem logout_token_then_file:
  "(tokenFault w = Some m \<longrightarrow>
      logout p w = (Inl (TokenStoreError m), called (TokenRemove (userName p)) w)) \<and>
   (tokenFault w = None \<longrightarrow>
      trace (snd (logout p w)) = trace w @ [TokenRemove (userName p), UnlinkSync] \<and>
      tokens (snd (logout p w)) = AList.delete (userName p) (tokens w) \<and>
      (fst (unlinkSync w) = Inr () \<longrightarrow>
         fst (logout p w) = Inr () \<and> node (snd (logout p w)) = Absent) \<and>
      (fst (unlinkSync w) = Inl (FsError ''ENOENT'') \<longrightarrow>
         fst (logout p w) = Inr () \<and> node (snd (logout p w)) = node w) \<and>
      (\<forall>e. fst (unlinkSync w) = Inl e \<and> e \<noteq> FsError ''ENOENT'' \<longrightarrow> fst (logout p w) = Inl e) \<and>
      (fst (logout p w) = Inr () \<longrightarrow> fst (logout p (snd (logout p w))) = Inr ()))"
proof (intro conjI impI)
  assume "tokenFault w = Some m"
  then show "logout p w = (Inl (TokenStoreError m), called (TokenRemove (userName p)) w)"
    by (rule logout_rejected)
next
  let ?w1 = "(called (TokenRemove (userName p)) w)\<lparr>tokens := AList.delete (userName p) (tokens w)\<rparr>"
  assume ok: "tokenFault w = None"
  have u: "fst (unlinkSync ?w1) = fst (unlinkSync w)"
    by (rule unlinkSync_same) simp_all
  note lo = logout_ok [OF ok, of p, unfolded Let_def u]
  show "trace (snd (logout p w)) = trace w @ [TokenRemove (userName p), UnlinkSync]"
    by (simp add: lo)
  show "tokens (snd (logout p w)) = AList.delete (userName p) (tokens w)"
    by (simp add: lo)
  {
    assume "fst (unlinkSync w) = Inr ()"
    then show "fst (logout p w) = Inr ()" "node (snd (logout p w)) = Absent"
      by (simp_all add: lo unlinkSync_node u)
  }
  {
    assume "fst (unlinkSync w) = Inl (FsError ''ENOENT'')"
    then show "fst (logout p w) = Inr ()" "node (snd (logout p w)) = node w"
      by (simp_all add: lo unlinkSync_node u)
  }
  show "\<forall>e. fst (unlinkSync w) = Inl e \<and> e \<noteq> FsError ''ENOENT'' \<longrightarrow> fst (logout p w) = Inl e"
    by (simp add: lo)
  assume first: "fst (logout p w) = Inr ()"
  let ?w2 = "snd (logout p w)"
  have ok2: "tokenFault ?w2 = None" by (simp add: lo ok)
  have "fst (unlinkSync ?w2) = Inl (FsError ''ENOENT'')"
  proof (cases "fst (unlinkSync w) = Inr ()")
    case True
    then have "fst (unlinkSync ?w1) = Inr ()" using u by simp
    then show ?thesis unfolding lo snd_conv by (rule unlinkSync_again)
  next
    case False
    then have e: "fst (unlinkSync w) = Inl (FsError ''ENOENT'')"
      using first by (simp add: lo split: if_splits)
    have "fst (unlinkSync ?w2) = fst (unlinkSync w)"
      by (rule unlinkSync_same) (simp_all add: lo unlinkSync_node u e)
    then show ?thesis using e by simp
  qed
  moreover have "fst (unlinkSync ((called (TokenRemove (userName p)) ?w2)
      \<lparr>tokens := AList.delete (userName p) (tokens ?w2)\<rparr>)) = fst (unlinkSync ?w2)"
    by (rule unlinkSync_same) simp_all
  ultimately show "fst (logout p ?w2) = Inr ()"
    by (simp add: logout_ok [OF ok2] Let_def)
qed

theorem logout_token_then_file_witness:
  "tokenFault loggedIn = None \<and> fst (unlinkSync loggedIn) = Inr () \<and>
   fst (logout alice loggedIn) = Inr () \<and>
   node (snd (logout alice loggedIn)) = Absent \<and>
   tokens (snd (logout alice loggedIn)) = [] \<and>
   trace (snd (logout alice loggedIn)) = [TokenRemove (Str ''alice''), UnlinkSync] \<and>
   fst (logout alice (snd (logout alice loggedIn))) = Inr () \<and>
   fst (unlinkSync noUser) = Inl (FsError ''ENOENT'') \<and>
   fst (logout alice noUser) = Inr () \<and>
   fst (unlinkSync (noUser\<lparr>fsFault := Some ''EACCES''\<rparr>)) = Inl (FsError ''EACCES'') \<and>
   fst (logout alice (noUser\<lparr>fsFault := Some ''EACCES''\<rparr>)) = Inl (FsError ''EACCES'') \<and>
   fst (logout alice (noUser\<lparr>tokenFault := Some ''locked''\<rparr>)) = Inl (TokenStoreError ''locked'')"
proof -
  have h: "tokenFault loggedIn = None" "fst (unlinkSync loggedIn) = Inr ()"
    "tokens loggedIn = [(Str ''alice'', ''secret'')]" "trace loggedIn = []"
    "userName alice = Str ''alice''"
    by (simp_all add: loggedIn_def unlinkSync_def alice_def)
  have e: "tokenFault noUser = None" "fst (unlinkSync noUser) = Inl (FsError ''ENOENT'')"
    by (simp_all add: noUser_def unlinkSync_def)
  have f: "tokenFault (noUser\<lparr>fsFault := Some ''EACCES''\<rparr>) = None"
    "fst (unlinkSync (noUser\<lparr>fsFault := Some ''EACCES''\<rparr>)) = Inl (FsError ''EACCES'')"
    "tokenFault (noUser\<lparr>tokenFault := Some ''locked''\<rparr>) = Some ''locked''"
    by (simp_all add: noUser_def unlinkSync_def)
  show ?thesis
    using logout_token_then_file [of loggedIn "''locked''" alice]
      logout_token_then_file [of noUser "''locked''" alice]
      logout_token_then_file [of "noUser\<lparr>fsFault := Some ''EACCES''\<rparr>" "''locked''" alice]
      logout_token_then_file [of "noUser\<lparr>tokenFault := Some ''locked''\<rparr>" "''locked''" alice]
      h e f
    by simp
qed

section \<open>\<open>saveUser\<close>\<close>

lemma tokenStore_set_ok:
  "tokenFault w = None \<Longrightarrow>
   tokenStore_set k v w =
     (Inr (), (called (TokenSet k v) w)\<lparr>tokens := AList.update k v (tokens w)\<rparr>)"
  by (simp add: tokenStore_set_def)

lemma tokenStore_set_fail:
  "tokenFault w = Some m \<Longrightarrow>
   tokenStore_set k v w = (Inl (TokenStoreError m), called (TokenSet k v) w)"
  by (simp add: tokenStore_set_def)

text \<open>\<open>saveUser\<close>, case by case, for any \<open>user\<close>.\<close>

lemma saveUser_cases:
  "saveUser user tok env w =
     (if nullish user then (Inl TypeError, w)
      else case tokenFault w of
        Some m \<Rightarrow> (Inl (TokenStoreError m), called (TokenSet (prop_of user ''name'') tok) w)
      | None \<Rightarrow>
         (let key = prop_of user ''name'';
              merged = readable (Object_assign ([], []) [user, Obj [(''environment'', Str env)]]);
              profile = \<lparr>oid = nextOid w,
                userId = js_or (prop_of merged ''userId'') (prop_of merged ''id''),
                userName = js_or (prop_of merged ''userName'') (prop_of merged ''name''),
                displayName = prop_of merged ''displayName'',
                email = prop_of merged ''email'',
                environment = prop_of merged ''environment'',
                defaultApp = prop_of merged ''defaultApp''\<rparr>;
              w2 = (called (TokenSet key tok) w)
                 \<lparr>tokens := AList.update key tok (tokens w), nextOid := Suc (nextOid w)\<rparr>
          in (case fst (save profile w2) of Inl e \<Rightarrow> Inl e | Inr r \<Rightarrow> Inr profile,
              snd (save profile w2))))"
proof (cases "nullish user")
  case True
  then show ?thesis by (simp add: saveUser_def get_prop_def)
next
  case False
  show ?thesis
  proof (cases "tokenFault w")
    case (Some m)
    then show ?thesis using False by (simp add: saveUser_def get_prop_def tokenStore_set_fail)
  next
    case None
    define key where "key = prop_of user ''name''"
    define w1 where
      "w1 = (called (TokenSet key tok) w)\<lparr>tokens := AList.update key tok (tokens w)\<rparr>"
    define merged where
      "merged = readable (Object_assign ([], []) [user, Obj [(''environment'', Str env)]])"
    define profile where "profile = \<lparr>oid = nextOid w,
                userId = js_or (prop_of merged ''userId'') (prop_of merged ''id''),
                userName = js_or (prop_of merged ''userName'') (prop_of merged ''name''),
                displayName = prop_of merged ''displayName'',
                email = prop_of merged ''email'',
                environment = prop_of merged ''environment'',
                defaultApp = prop_of merged ''defaultApp''\<rparr>"
    define w2 where "w2 = (called (TokenSet key tok) w)
                 \<lparr>tokens := AList.update key tok (tokens w), nextOid := Suc (nextOid w)\<rparr>"
    have g: "get_prop user ''name'' = Inr key"
      using False by (simp add: get_prop_def key_def)
    have t: "tokenStore_set key tok w = (Inr (), w1)"
      unfolding w1_def by (rule tokenStore_set_ok [OF None])
    have n: "new_ProfileImpl merged w1 = (Inr profile, w2)"
      unfolding new_ProfileImpl_def profile_def w2_def w1_def
      by (simp add: merged_def readable_def)
    obtain res w3 where sv: "save profile w2 = (res, w3)" by (cases "save profile w2")
    have "saveUser user tok env w = (case res of Inl e \<Rightarrow> Inl e | Inr r \<Rightarrow> Inr profile, w3)"
      by (simp add: saveUser_def g t n [unfolded merged_def] sv split: sum.splits)
    then show ?thesis
      using False None
      unfolding Let_def key_def [symmetric] merged_def [symmetric] profile_def [symmetric]
        w2_def [symmetric] sv
      by simp
  qed
qed

lemma saveUser_cache: "currentProfile (snd (saveUser user tok env w)) = currentProfile w"
  unfolding saveUser_cases Let_def by (simp add: save_cache split: option.splits)

text \<open>A \<open>saveUser\<close> that resolved ended in a \<open>save\<close> of the Profile it returns.\<close>

lemma saveUser_saved:
  assumes s: "saveUser user tok env w = (Inr r, w')"
  shows "\<exists>w2. save r w2 = (Inr r, w')"
proof -
  have nn: "\<not> nullish user"
    using s by (cases "nullish user") (simp_all add: saveUser_def get_prop_def)
  have ok: "tokenFault w = None"
    using s nn
    by (cases "tokenFault w") (simp_all add: saveUser_def get_prop_def tokenStore_set_fail)
  define key where "key = prop_of user ''name''"
  define merged where "merged = readable (Object_assign ([], []) [user, Obj [(''environment'', Str env)]])"
  define p where "p = \<lparr>oid = nextOid w,
                userId = js_or (prop_of merged ''userId'') (prop_of merged ''id''),
                userName = js_or (prop_of merged ''userName'') (prop_of merged ''name''),
                displayName = prop_of merged ''displayName'',
                email = prop_of merged ''email'',
                environment = prop_of merged ''environment'',
                defaultApp = prop_of merged ''defaultApp''\<rparr>"
  define w2 where "w2 = (called (TokenSet key tok) w)
                 \<lparr>tokens := AList.update key tok (tokens w), nextOid := Suc (nextOid w)\<rparr>"
  have eq: "saveUser user tok env w =
      (case fst (save p w2) of Inl e \<Rightarrow> Inl e | Inr r \<Rightarrow> Inr p, snd (save p w2))"
    using nn ok
    unfolding saveUser_cases [of user tok env w] Let_def key_def [symmetric]
      merged_def [symmetric] p_def [symmetric] w2_def [symmetric]
    by (simp only: if_False option.case)
  have "fst (save p w2) = Inr p \<and> p = r \<and> snd (save p w2) = w'"
    using s save_ok(1) [of p w2 _ "snd (save p w2)"] unfolding eq
    by (cases "save p w2") (auto split: sum.splits)
  then have "save r w2 = (Inr r, w')" by (cases "save r w2") auto
  then show ?thesis ..
qed

subsection \<open>A user object\<close>

lemma fold_update_map_of:
  "distinct (map fst kvs) \<Longrightarrow>
   map_of (fold (\<lambda>(k, v). AList.update k v) kvs t) = map_of t ++ map_of kvs"
proof (induction kvs arbitrary: t)
  case Nil
  then show ?case by simp
next
  case (Cons kv kvs)
  obtain k v where kv: "kv = (k, v)" by (cases kv)
  have notin: "k \<notin> dom (map_of kvs)"
    using Cons.prems by (auto simp: kv dom_map_of_conv_image_fst)
  have "map_of (fold (\<lambda>(k, v). AList.update k v) (kv # kvs) t) =
        map_of (AList.update k v t) ++ map_of kvs"
    using Cons.IH [of "AList.update k v t"] Cons.prems by (simp add: kv)
  also have "\<dots> = (map_of t)(k \<mapsto> v) ++ map_of kvs"
    by (simp only: update_conv')
  also have "\<dots> = map_of t ++ map_of (kv # kvs)"
    using notin by (auto simp: kv map_add_def fun_eq_iff split: option.splits)
  finally show ?case .
qed

lemma fold_set_prop_own:
  "fst (fold (\<lambda>(k, v). set_prop k v) kvs t) =
   fold (\<lambda>(k, v). AList.update k v) (filter (\<lambda>(k, v). k \<noteq> ''__proto__'') kvs) (fst t)"
  by (induction kvs arbitrary: t) (auto simp: set_prop_def)

lemma fold_set_prop_proto:
  "distinct (map fst kvs) \<Longrightarrow>
   snd (fold (\<lambda>(k, v). set_prop k v) kvs t) =
     (case map_of kvs ''__proto__'' of
        None \<Rightarrow> snd t
      | Some v \<Rightarrow> (case proto_props v of Some ps \<Rightarrow> ps | None \<Rightarrow> snd t))"
proof (induction kvs arbitrary: t)
  case Nil
  then show ?case by simp
next
  case (Cons kv kvs)
  obtain k v where kv: "kv = (k, v)" by (cases kv)
  have d: "distinct (map fst kvs)" and notin: "k \<notin> fst ` set kvs"
    using Cons.prems by (simp_all add: kv)
  have step: "fold (\<lambda>(k, v). set_prop k v) (kv # kvs) t =
      fold (\<lambda>(k, v). set_prop k v) kvs (set_prop k v t)"
    by (simp add: kv)
  note ih = Cons.IH [OF d, of "set_prop k v t"]
  show ?case
  proof (cases "k = ''__proto__''")
    case True
    have none: "map_of kvs ''__proto__'' = None"
      using notin True by (simp add: map_of_eq_None_iff)
    have sp: "snd (set_prop k v t) = (case proto_props v of Some ps \<Rightarrow> ps | None \<Rightarrow> snd t)"
      using True by (simp add: set_prop_def)
    show ?thesis
      unfolding step ih none sp using True by (simp add: kv)
  next
    case False
    have sp: "snd (set_prop k v t) = snd t"
      using False by (simp add: set_prop_def)
    show ?thesis
      unfolding step ih sp using False by (simp add: kv)
  qed
qed

lemma map_of_filter_key:
  "map_of (filter (\<lambda>(k, v). k \<noteq> p) kvs) k = (if k = p then None else map_of kvs k)"
  by (induction kvs) auto

lemma inherited_prop:
  "(case map_of (case proto_props v of Some ps \<Rightarrow> ps | None \<Rightarrow> []) k of
      None \<Rightarrow> Undefined | Some x \<Rightarrow> x) = prop_of v k"
  by (cases v) simp_all

text \<open>
  The properties of \<open>Object.assign({}, user, {environment})\<close>, for an object \<open>user\<close> that
  has each property name once.
\<close>

lemma merged_prop:
  assumes d: "distinct (map fst kvs)" and k: "k \<noteq> ''__proto__''"
  shows "prop_of (readable (Object_assign ([], []) [Obj kvs, Obj [(''environment'', Str env)]])) k =
         (if k = ''environment'' then Str env else user_field kvs k)"
proof -
  let ?t = "fold (\<lambda>(k, v). set_prop k v) kvs ([], [])"
  have df: "distinct (map fst (filter (\<lambda>(k, v). k \<noteq> ''__proto__'') kvs))"
    using d by (simp add: distinct_map_filter)
  have own: "map_of (fst ?t) k = map_of kvs k"
    using k by (simp add: fold_set_prop_own fold_update_map_of [OF df] map_of_filter_key)
  have inh: "(case map_of (snd ?t) k of None \<Rightarrow> Undefined | Some x \<Rightarrow> x) =
      prop_of (prop_of (Obj kvs) ''__proto__'') k"
  proof (cases "map_of kvs ''__proto__''")
    case None
    then show ?thesis by (simp add: fold_set_prop_proto [OF d])
  next
    case (Some v)
    then have "snd ?t = (case proto_props v of Some ps \<Rightarrow> ps | None \<Rightarrow> [])"
      by (simp add: fold_set_prop_proto [OF d] split: option.splits)
    then show ?thesis using inherited_prop [of v k] Some by simp
  qed
  have "readable (Object_assign ([], []) [Obj kvs, Obj [(''environment'', Str env)]]) =
      Obj (AList.update ''environment'' (Str env) (fst ?t) @ snd ?t)"
    by (simp add: Object_assign_def readable_def set_prop_def)
  then show ?thesis
    using own inh
    by (auto simp: user_field_def update_conv' map_add_def split: option.splits)
qed

lemma user_field_own:
  "prop_of (Obj kvs) k \<noteq> Undefined \<Longrightarrow> user_field kvs k = prop_of (Obj kvs) k"
  by (simp add: user_field_def split: option.splits)

lemma user_field_plain:
  "''__proto__'' \<notin> fst ` set kvs \<Longrightarrow> user_field kvs k = prop_of (Obj kvs) k"
proof -
  assume "''__proto__'' \<notin> fst ` set kvs"
  then have "map_of kvs ''__proto__'' = None" by (simp add: map_of_eq_None_iff)
  then show ?thesis by (simp add: user_field_def split: option.splits)
qed

lemma saveUser_rejected:
  "tokenFault w = Some m \<Longrightarrow>
   saveUser (Obj kvs) tok env w =
     (Inl (TokenStoreError m), called (TokenSet (prop_of (Obj kvs) ''name'') tok) w)"
  unfolding saveUser_cases by (simp del: prop_of.simps)

lemma saveUser_stored:
  assumes ok: "tokenFault w = None" and d: "distinct (map fst kvs)"
  shows "saveUser (Obj kvs) tok env w =
     (let key = prop_of (Obj kvs) ''name'';
          profile = \<lparr>oid = nextOid w,
              userId = js_or (user_field kvs ''userId'') (user_field kvs ''id''),
              userName = js_or (user_field kvs ''userName'') (user_field kvs ''name''),
              displayName = user_field kvs ''displayName'',
              email = user_field kvs ''email'',
              environment = Str env,
              defaultApp = user_field kvs ''defaultApp''\<rparr>;
          w2 = (called (TokenSet key tok) w)
                 \<lparr>tokens := AList.update key tok (tokens w), nextOid := Suc (nextOid w)\<rparr>
      in (case fst (save profile w2) of Inl e \<Rightarrow> Inl e | Inr r \<Rightarrow> Inr profile,
          snd (save profile w2)))"
proof -
  let ?m = "readable (Object_assign ([], []) [Obj kvs, Obj [(''environment'', Str env)]])"
  have f: "prop_of ?m ''userId'' = user_field kvs ''userId''"
    "prop_of ?m ''id'' = user_field kvs ''id''"
    "prop_of ?m ''userName'' = user_field kvs ''userName''"
    "prop_of ?m ''name'' = user_field kvs ''name''"
    "prop_of ?m ''displayName'' = user_field kvs ''displayName''"
    "prop_of ?m ''email'' = user_field kvs ''email''"
    "prop_of ?m ''environment'' = Str env"
    "prop_of ?m ''defaultApp'' = user_field kvs ''defaultApp''"
    by (simp_all add: merged_prop [OF d] del: prop_of.simps)
  show ?thesis
    unfolding saveUser_cases Let_def f using ok by (simp del: prop_of.simps)
qed

lemma saveUser_success:
  assumes d: "distinct (map fst kvs)" and s: "saveUser (Obj kvs) tok env w = (Inr p, w1)"
  shows "tokenFault w = None" "tokenFault w1 = None"
    "userName p = js_or (user_field kvs ''userName'') (user_field kvs ''name'')"
    "tokens w1 = AList.update (prop_of (Obj kvs) ''name'') tok (tokens w)"
    "\<exists>rest. trace w1 = trace w @ TokenSet (prop_of (Obj kvs) ''name'') tok # rest"
    "defaultApp p = user_field kvs ''defaultApp''"
proof -
  show ok: "tokenFault w = None"
    using s by (cases "tokenFault w") (simp_all add: saveUser_rejected)
  note st = s [unfolded saveUser_stored [OF ok d] Let_def save_cases]
  show "tokenFault w1 = None" using st ok by (auto split: if_splits)
  show "userName p = js_or (user_field kvs ''userName'') (user_field kvs ''name'')"
    using st by (auto split: if_splits)
  show "tokens w1 = AList.update (prop_of (Obj kvs) ''name'') tok (tokens w)"
    using st by (auto split: if_splits)
  show "\<exists>rest. trace w1 = trace w @ TokenSet (prop_of (Obj kvs) ''name'') tok # rest"
    using st by (auto split: if_splits)
  show "defaultApp p = user_field kvs ''defaultApp''"
    using st by (auto split: if_splits)
qed

lemma saveUser_protoUser:
  "fst (saveUser (Obj protoUser) ''secret'' ''prod'' noUser) =
     Inr \<lparr>oid = 0, userId = Str ''evil'', userName = Str ''mallory'',
           displayName = Str ''Mallory'', email = Undefined, environment = Str ''prod'',
           defaultApp = otherApp\<rparr>"
proof -
  have d: "distinct (map fst protoUser)" by (simp add: protoUser_def)
  have ok: "tokenFault noUser = None" by (simp add: noUser_def)
  show ?thesis
    unfolding saveUser_stored [OF ok d] Let_def save_cases
    by (simp add: protoUser_def user_field_def js_or_def noUser_def)
qed

text \<open>
  Claim C7, as amended. For every user object, token and environment, the first call
  \<open>saveUser\<close> makes is \<open>tokenStore.set(user.name, token)\<close>, before any call to the file
  system. If the store rejects, \<open>saveUser\<close> rejects and the profile path is as it was.
  Only when the store resolved does it build the Profile from what a read finds on
  \<open>Object.assign({}, user, {environment})\<close>, write it to the profile file (a file that was
  there is replaced) and return it. What a read finds is the given environment and the
  user's own fields and, where the user object has none of a name, the field of the object
  under its own \<open>__proto__\<close> property; for a user object with no such property these are
  the user's fields merged with the environment.
\<close>

theorem saveUser_token_before_file:
  assumes d: "distinct (map fst kvs)"
  shows
  "(\<exists>rest. trace (snd (saveUser (Obj kvs) tok env w)) =
       trace w @ TokenSet (prop_of (Obj kvs) ''name'') tok # rest) \<and>
   (tokenFault w = Some m \<longrightarrow>
      fst (saveUser (Obj kvs) tok env w) = Inl (TokenStoreError m) \<and>
      node (snd (saveUser (Obj kvs) tok env w)) = node w \<and>
      trace (snd (saveUser (Obj kvs) tok env w)) =
        trace w @ [TokenSet (prop_of (Obj kvs) ''name'') tok]) \<and>
   (\<forall>p. fst (saveUser (Obj kvs) tok env w) = Inr p \<longrightarrow> tokenFault w = None) \<and>
   (tokenFault w = None \<and> fsFault w = None \<and> node w \<noteq> Directory \<longrightarrow>
      (\<exists>p w'. saveUser (Obj kvs) tok env w = (Inr p, w') \<and>
         userId p = js_or (user_field kvs ''userId'') (user_field kvs ''id'') \<and>
         userName p = js_or (user_field kvs ''userName'') (user_field kvs ''name'') \<and>
         displayName p = user_field kvs ''displayName'' \<and>
         email p = user_field kvs ''email'' \<and>
         environment p = Str env \<and>
         defaultApp p = user_field kvs ''defaultApp'' \<and>
         node w' = RegularFile (JsonText (json_norm (profile_literal p))) \<and>
         map_of (tokens w') (prop_of (Obj kvs) ''name'') = Some tok \<and>
         trace w' = trace w @ [TokenSet (prop_of (Obj kvs) ''name'') tok, MkdirpSync,
                     WriteFileSync (JsonText (json_norm (profile_literal p)))])) \<and>
   (''__proto__'' \<notin> fst ` set kvs \<longrightarrow> (\<forall>k. user_field kvs k = prop_of (Obj kvs) k))"
proof (intro conjI impI allI)
  show "\<exists>rest. trace (snd (saveUser (Obj kvs) tok env w)) =
       trace w @ TokenSet (prop_of (Obj kvs) ''name'') tok # rest"
  proof (cases "tokenFault w")
    case None
    show ?thesis
      unfolding saveUser_stored [OF None d] Let_def snd_conv save_trace by simp
  next
    case (Some m')
    then show ?thesis by (simp add: saveUser_rejected)
  qed
next
  assume "tokenFault w = Some m"
  then show "fst (saveUser (Obj kvs) tok env w) = Inl (TokenStoreError m)"
    "node (snd (saveUser (Obj kvs) tok env w)) = node w"
    "trace (snd (saveUser (Obj kvs) tok env w)) =
       trace w @ [TokenSet (prop_of (Obj kvs) ''name'') tok]"
    by (simp_all add: saveUser_rejected)
next
  fix p assume "fst (saveUser (Obj kvs) tok env w) = Inr p"
  then show "tokenFault w = None"
    by (cases "tokenFault w") (simp_all add: saveUser_rejected)
next
  assume a: "tokenFault w = None \<and> fsFault w = None \<and> node w \<noteq> Directory"
  then have ok: "tokenFault w = None" by simp
  show "\<exists>p w'. saveUser (Obj kvs) tok env w = (Inr p, w') \<and>
         userId p = js_or (user_field kvs ''userId'') (user_field kvs ''id'') \<and>
         userName p = js_or (user_field kvs ''userName'') (user_field kvs ''name'') \<and>
         displayName p = user_field kvs ''displayName'' \<and>
         email p = user_field kvs ''email'' \<and>
         environment p = Str env \<and>
         defaultApp p = user_field kvs ''defaultApp'' \<and>
         node w' = RegularFile (JsonText (json_norm (profile_literal p))) \<and>
         map_of (tokens w') (prop_of (Obj kvs) ''name'') = Some tok \<and>
         trace w' = trace w @ [TokenSet (prop_of (Obj kvs) ''name'') tok, MkdirpSync,
                     WriteFileSync (JsonText (json_norm (profile_literal p)))]"
    unfolding saveUser_stored [OF ok d] Let_def save_cases using a
    by (simp add: update_conv' del: prop_of.simps)
next
  fix k assume "''__proto__'' \<notin> fst ` set kvs"
  then show "user_field kvs k = prop_of (Obj kvs) k" by (rule user_field_plain)
qed

theorem saveUser_token_before_file_witness:
  "distinct (map fst apiUser) \<and> tokenFault loggedIn = None \<and> fsFault loggedIn = None \<and>
   node loggedIn \<noteq> Directory \<and> ''__proto__'' \<notin> fst ` set apiUser \<and>
   user_field apiUser ''userId'' = prop_of (Obj apiUser) ''userId'' \<and>
   fst (saveUser (Obj apiUser) ''fresh'' ''int'' loggedIn) =
     Inr \<lparr>oid = 0, userId = Str ''u1'', userName = Str ''alice'', displayName = Str ''Alice'',
           email = Str ''alice@example.com'', environment = Str ''int'',
           defaultApp = Undefined\<rparr> \<and>
   node (snd (saveUser (Obj apiUser) ''fresh'' ''int'' loggedIn)) =
     RegularFile (JsonText (Obj [(''userId'', Str ''u1''), (''userName'', Str ''alice''),
       (''displayName'', Str ''Alice''), (''email'', Str ''alice@example.com''),
       (''environment'', Str ''int'')])) \<and>
   tokens (snd (saveUser (Obj apiUser) ''fresh'' ''int'' loggedIn)) = [(Str ''alice'', ''fresh'')] \<and>
   node (snd (saveUser (Obj apiUser) ''fresh'' ''int'' (loggedIn\<lparr>tokenFault := Some ''locked''\<rparr>))) =
     node loggedIn"
proof -
  have d: "distinct (map fst apiUser)" and np: "''__proto__'' \<notin> fst ` set apiUser"
    by (simp_all add: apiUser_def)
  have h: "tokenFault loggedIn = None" "fsFault loggedIn = None" "node loggedIn \<noteq> Directory"
    "tokenFault (loggedIn\<lparr>tokenFault := Some ''locked''\<rparr>) = Some ''locked''"
    "node (loggedIn\<lparr>tokenFault := Some ''locked''\<rparr>) = node loggedIn"
    by (simp_all add: loggedIn_def)
  have ok: "fst (saveUser (Obj apiUser) ''fresh'' ''int'' loggedIn) =
     Inr \<lparr>oid = 0, userId = Str ''u1'', userName = Str ''alice'', displayName = Str ''Alice'',
           email = Str ''alice@example.com'', environment = Str ''int'',
           defaultApp = Undefined\<rparr>"
    "node (snd (saveUser (Obj apiUser) ''fresh'' ''int'' loggedIn)) =
     RegularFile (JsonText (Obj [(''userId'', Str ''u1''), (''userName'', Str ''alice''),
       (''displayName'', Str ''Alice''), (''email'', Str ''alice@example.com''),
       (''environment'', Str ''int'')]))"
    "tokens (snd (saveUser (Obj apiUser) ''fresh'' ''int'' loggedIn)) = [(Str ''alice'', ''fresh'')]"
    unfolding saveUser_stored [OF h(1) d] Let_def save_cases
    by (simp_all add: apiUser_def user_field_def js_or_def profile_literal_def loggedIn_def)
  have uf: "user_field apiUser ''userId'' = prop_of (Obj apiUser) ''userId''"
    using saveUser_token_before_file [OF d, of "''fresh''" "''int''" loggedIn "''locked''"] np
    by blast
  show ?thesis
    using saveUser_token_before_file [OF d, of "''fresh''" "''int''"
        "loggedIn\<lparr>tokenFault := Some ''locked''\<rparr>" "''locked''"] h d np ok uf
    by simp
qed

text \<open>
  The claim as stated fails for a user object with an own \<open>__proto__\<close> property:
  the user has no \<open>userId\<close>, \<open>id\<close> or \<open>displayName\<close> field, and the Profile \<open>saveUser\<close>
  returns has those of the object under \<open>__proto__\<close>.
\<close>

theorem saveUser_proto_counterexample:
  "distinct (map fst protoUser) \<and>
   prop_of (Obj protoUser) ''userId'' = Undefined \<and>
   prop_of (Obj protoUser) ''id'' = Undefined \<and>
   prop_of (Obj protoUser) ''displayName'' = Undefined \<and>
   fst (saveUser (Obj protoUser) ''secret'' ''prod'' noUser) =
     Inr \<lparr>oid = 0, userId = Str ''evil'', userName = Str ''mallory'',
           displayName = Str ''Mallory'', email = Undefined, environment = Str ''prod'',
           defaultApp = otherApp\<rparr>"
  using saveUser_protoUser by (simp add: protoUser_def)

text \<open>
  Claim C9. For every user object in which \<open>userName\<close> and \<open>name\<close> are both truthy,
  \<open>saveUser\<close> stores the token under \<open>user.name\<close> while the \<open>userName\<close> of the Profile it
  returns is \<open>user.userName\<close>. A later \<open>logout()\<close> of that Profile asks the token store to
  remove the entry under \<open>userName\<close>; when the two differ, the entry the token was stored
  under is still there afterwards.
\<close>

theorem saveUser_logout_keys:
  assumes d: "distinct (map fst kvs)"
    and un: "truthy (prop_of (Obj kvs) ''userName'')"
    and nm: "truthy (prop_of (Obj kvs) ''name'')"
    and s: "saveUser (Obj kvs) tok env w = (Inr p, w1)"
  shows "userName p = prop_of (Obj kvs) ''userName'' \<and>
         (\<exists>rest. trace w1 = trace w @ TokenSet (prop_of (Obj kvs) ''name'') tok # rest) \<and>
         map_of (tokens w1) (prop_of (Obj kvs) ''name'') = Some tok \<and>
         trace (snd (logout p w1)) =
           trace w1 @ [TokenRemove (prop_of (Obj kvs) ''userName''), UnlinkSync] \<and>
         tokens (snd (logout p w1)) = AList.delete (prop_of (Obj kvs) ''userName'') (tokens w1) \<and>
         (prop_of (Obj kvs) ''userName'' \<noteq> prop_of (Obj kvs) ''name'' \<longrightarrow>
            map_of (tokens (snd (logout p w1))) (prop_of (Obj kvs) ''name'') = Some tok)"
proof -
  note f = saveUser_success [OF d s]
  have "user_field kvs ''userName'' = prop_of (Obj kvs) ''userName''"
    using un by (intro user_field_own) auto
  then have u: "userName p = prop_of (Obj kvs) ''userName''"
    using f(3) un by (simp add: js_or_def)
  have lo: "trace (snd (logout p w1)) = trace w1 @ [TokenRemove (userName p), UnlinkSync]"
    "tokens (snd (logout p w1)) = AList.delete (userName p) (tokens w1)"
    using logout_effects [OF f(2)] by simp_all
  show ?thesis
    using u f(5) lo by (simp add: f(4) update_conv' delete_conv')
qed

theorem saveUser_logout_keys_witness:
  "distinct (map fst twoNames) \<and> truthy (prop_of (Obj twoNames) ''userName'') \<and>
   truthy (prop_of (Obj twoNames) ''name'') \<and>
   prop_of (Obj twoNames) ''userName'' = Str ''alice'' \<and>
   prop_of (Obj twoNames) ''name'' = Str ''Alice L.'' \<and>
   saveUser (Obj twoNames) ''secret'' ''prod'' noUser =
     (Inr \<lparr>oid = 0, userId = Str ''u1'', userName = Str ''alice'', displayName = Undefined,
            email = Undefined, environment = Str ''prod'', defaultApp = Undefined\<rparr>,
      snd (saveUser (Obj twoNames) ''secret'' ''prod'' noUser)) \<and>
   map_of (tokens (snd (logout
       \<lparr>oid = 0, userId = Str ''u1'', userName = Str ''alice'', displayName = Undefined,
         email = Undefined, environment = Str ''prod'', defaultApp = Undefined\<rparr>
       (snd (saveUser (Obj twoNames) ''secret'' ''prod'' noUser))))) (Str ''Alice L.'') =
     Some ''secret''"
proof -
  let ?p = "\<lparr>oid = 0, userId = Str ''u1'', userName = Str ''alice'', displayName = Undefined,
            email = Undefined, environment = Str ''prod'', defaultApp = Undefined\<rparr>"
  have d: "distinct (map fst twoNames)" by (simp add: twoNames_def)
  have v: "prop_of (Obj twoNames) ''userName'' = Str ''alice''"
    "prop_of (Obj twoNames) ''name'' = Str ''Alice L.''"
    by (simp_all add: twoNames_def)
  have t: "truthy (prop_of (Obj twoNames) ''userName'')" "truthy (prop_of (Obj twoNames) ''name'')"
    unfolding v by simp_all
  have ok: "tokenFault noUser = None" by (simp add: noUser_def)
  have "fst (saveUser (Obj twoNames) ''secret'' ''prod'' noUser) = Inr ?p"
    unfolding saveUser_stored [OF ok d] Let_def save_cases
    by (simp add: twoNames_def user_field_def noUser_def js_or_def)
  then have s: "saveUser (Obj twoNames) ''secret'' ''prod'' noUser =
      (Inr ?p, snd (saveUser (Obj twoNames) ''secret'' ''prod'' noUser))"
    by (metis prod.collapse)
  have "map_of (tokens (snd (logout ?p (snd (saveUser (Obj twoNames) ''secret'' ''prod'' noUser)))))
      (Str ''Alice L.'') = Some ''secret''"
    using saveUser_logout_keys [OF d t s] unfolding v by simp
  then show ?thesis using d t v s by blast
qed

section \<open>The identifier of a default app\<close>

lemma toDefaultApp_identifier:
  "toDefaultApp app = Some d \<Longrightarrow> identifier d = ownerName d @ ''/'' @ appName d"
  by (auto simp: toDefaultApp_def split: option.splits list.splits)

lemma identifier_ok_obj:
  "identifier_ok (DefaultApp_obj d) \<longleftrightarrow> identifier d = ownerName d @ ''/'' @ appName d"
  by (simp add: identifier_ok_def DefaultApp_obj_def)

lemma json_value_DefaultApp_obj: "json_value (DefaultApp_obj d)"
  by (simp add: DefaultApp_obj_def)

lemma toDefaultApp_acme: "toDefaultApp ''acme/myapp'' = Some acmeApp"
proof -
  have "spec_valid ''acme/myapp'' ''acme'' ''myapp''"
    by (simp add: spec_valid_def spec_segment_def spec_char_def)
  then have "match_terms validApp ''acme/myapp'' = Some [''acme'', ''myapp'']"
    using match_validApp_iff by blast
  then show ?thesis by (simp add: toDefaultApp_def acmeApp_def)
qed

lemma loadProfile_editedFile:
  "loadProfile editedFile =
     (Inr (Some \<lparr>oid = 0, userId = Str ''u1'', userName = Str ''alice'', displayName = Undefined,
                 email = Undefined, environment = Undefined, defaultApp = otherApp\<rparr>),
      snd (loadProfile editedFile))"
proof -
  have "fst (loadProfile editedFile) =
     Inr (Some \<lparr>oid = 0, userId = Str ''u1'', userName = Str ''alice'', displayName = Undefined,
                 email = Undefined, environment = Undefined, defaultApp = otherApp\<rparr>)"
    by (simp add: loadProfile_def fileExists_def statSync_isFile_def readFileSync_def
      new_ProfileImpl_def Let_def editedFile_def noUser_def js_or_def)
  then show ?thesis by (metis prod.collapse)
qed

text \<open>
  Claim C3, as amended. The \<open>identifier\<close> of every default app that \<open>toDefaultApp\<close> returns
  is exactly \<open>"{ownerName}/{appName}"\<close>, and a Profile that holds one keeps it, unchanged,
  through \<open>save()\<close> and a new process's \<open>loadProfile()\<close>. The constructor copies
  \<open>defaultApp\<close> as it finds it: the Profile \<open>loadProfile\<close> reconstructs has the \<open>defaultApp\<close>
  property of the file, and the Profile \<open>saveUser\<close> constructs has the \<open>defaultApp\<close> a read
  finds on \<open>Object.assign({}, user, {environment})\<close> (the user object's own, or else that
  of the object under its own \<open>__proto__\<close> property), whatever its \<open>identifier\<close> is.
\<close>

theorem defaultApp_identifier_kept:
  "(toDefaultApp app = Some d \<longrightarrow>
      identifier d = ownerName d @ ''/'' @ appName d \<and> identifier_ok (DefaultApp_obj d)) \<and>
   (toDefaultApp app = Some d \<and> defaultApp p = DefaultApp_obj d \<and> save p w = (Inr r, w1) \<longrightarrow>
      (\<exists>q w2. loadProfile (restart w1) = (Inr (Some q), w2) \<and>
         defaultApp q = DefaultApp_obj d \<and> identifier_ok (defaultApp q))) \<and>
   (\<forall>q w2. loadProfile w = (Inr (Some q), w2) \<longrightarrow>
      (\<exists>v. node w = RegularFile (JsonText v) \<and> defaultApp q = prop_of v ''defaultApp'')) \<and>
   (\<forall>q w2. distinct (map fst kvs) \<and> saveUser (Obj kvs) tok env w = (Inr q, w2) \<longrightarrow>
      defaultApp q = user_field kvs ''defaultApp'') \<and>
   (''__proto__'' \<notin> fst ` set kvs \<longrightarrow>
      user_field kvs ''defaultApp'' = prop_of (Obj kvs) ''defaultApp'')"
proof (intro conjI impI allI)
  assume t: "toDefaultApp app = Some d"
  show "identifier d = ownerName d @ ''/'' @ appName d"
    using t by (rule toDefaultApp_identifier)
  then show "identifier_ok (DefaultApp_obj d)" by (simp add: identifier_ok_obj)
next
  assume a: "toDefaultApp app = Some d \<and> defaultApp p = DefaultApp_obj d \<and> save p w = (Inr r, w1)"
  then have ok: "identifier_ok (DefaultApp_obj d)"
    using toDefaultApp_identifier [of app d] by (simp add: identifier_ok_obj)
  have "json_norm (defaultApp p) = DefaultApp_obj d"
    using a json_norm_fixed(1) [OF json_value_DefaultApp_obj [of d]] by simp
  then show "\<exists>q w2. loadProfile (restart w1) = (Inr (Some q), w2) \<and>
         defaultApp q = DefaultApp_obj d \<and> identifier_ok (defaultApp q)"
    using load_after_save [of p w r w1] a ok by auto
next
  fix q w2 assume "loadProfile w = (Inr (Some q), w2)"
  then show "\<exists>v. node w = RegularFile (JsonText v) \<and> defaultApp q = prop_of v ''defaultApp''"
    using loadProfile_Some by blast
next
  fix q w2 assume a: "distinct (map fst kvs) \<and> saveUser (Obj kvs) tok env w = (Inr q, w2)"
  then show "defaultApp q = user_field kvs ''defaultApp''"
    using saveUser_success(6) [of kvs tok env w q w2] by simp
next
  assume "''__proto__'' \<notin> fst ` set kvs"
  then show "user_field kvs ''defaultApp'' = prop_of (Obj kvs) ''defaultApp''"
    by (rule user_field_plain)
qed

theorem defaultApp_identifier_kept_witness:
  "toDefaultApp ''acme/myapp'' = Some acmeApp \<and> defaultApp alice = DefaultApp_obj acmeApp \<and>
   save alice noUser = (Inr alice, snd (save alice noUser)) \<and>
   identifier acmeApp = ownerName acmeApp @ ''/'' @ appName acmeApp \<and>
   (\<exists>q w2. loadProfile (restart (snd (save alice noUser))) = (Inr (Some q), w2) \<and>
      defaultApp q = DefaultApp_obj acmeApp \<and> identifier_ok (defaultApp q)) \<and>
   (\<exists>v. node editedFile = RegularFile (JsonText v) \<and> otherApp = prop_of v ''defaultApp'') \<and>
   distinct (map fst protoUser) \<and>
   fst (saveUser (Obj protoUser) ''secret'' ''prod'' noUser) =
     Inr \<lparr>oid = 0, userId = Str ''evil'', userName = Str ''mallory'',
           displayName = Str ''Mallory'', email = Undefined, environment = Str ''prod'',
           defaultApp = otherApp\<rparr> \<and>
   otherApp = user_field protoUser ''defaultApp'' \<and>
   ''__proto__'' \<notin> fst ` set apiUser \<and>
   user_field apiUser ''defaultApp'' = prop_of (Obj apiUser) ''defaultApp''"
proof -
  have a: "defaultApp alice = DefaultApp_obj acmeApp" by (simp add: alice_def)
  have e: "\<exists>v. node editedFile = RegularFile (JsonText v) \<and> otherApp = prop_of v ''defaultApp''"
    using defaultApp_identifier_kept [of "''acme/myapp''" acmeApp alice editedFile alice
        "snd (save alice noUser)" "[]" "''t''" "''e''"] loadProfile_editedFile
    by fastforce
  have d: "distinct (map fst protoUser)" by (simp add: protoUser_def)
  have s: "saveUser (Obj protoUser) ''secret'' ''prod'' noUser =
     (Inr \<lparr>oid = 0, userId = Str ''evil'', userName = Str ''mallory'',
           displayName = Str ''Mallory'', email = Undefined, environment = Str ''prod'',
           defaultApp = otherApp\<rparr>, snd (saveUser (Obj protoUser) ''secret'' ''prod'' noUser))"
    using saveUser_protoUser by (metis prod.collapse)
  have u: "otherApp = user_field protoUser ''defaultApp''"
    using defaultApp_identifier_kept [of "''acme/myapp''" acmeApp alice noUser alice
        "snd (save alice noUser)" protoUser "''secret''" "''prod''"] d s
    by fastforce
  have np: "''__proto__'' \<notin> fst ` set apiUser" by (simp add: apiUser_def)
  have pl: "user_field apiUser ''defaultApp'' = prop_of (Obj apiUser) ''defaultApp''"
    using defaultApp_identifier_kept [of "''acme/myapp''" acmeApp alice noUser alice
        "snd (save alice noUser)" apiUser "''secret''" "''prod''"] np
    by blast
  show ?thesis
    using defaultApp_identifier_kept [of "''acme/myapp''" acmeApp alice noUser alice
        "snd (save alice noUser)"] toDefaultApp_acme a save_alice e d saveUser_protoUser u np pl
    by blast
qed

text \<open>
  The claim as stated fails for a Profile reconstructed from a profile file whose
  \<open>defaultApp\<close> has another \<open>identifier\<close>: the constructor does not look at it.
\<close>

theorem loaded_identifier_counterexample:
  "fst (getUser editedFile) =
     Inr (Some \<lparr>oid = 0, userId = Str ''u1'', userName = Str ''alice'', displayName = Undefined,
                 email = Undefined, environment = Undefined, defaultApp = otherApp\<rparr>) \<and>
   \<not> nullish otherApp \<and>
   prop_of otherApp ''identifier'' = Str ''acme/other'' \<and>
   prop_of otherApp ''ownerName'' = Str ''acme'' \<and>
   prop_of otherApp ''appName'' = Str ''myapp'' \<and>
   \<not> identifier_ok otherApp"
  by (simp add: getUser_def loadProfile_def fileExists_def statSync_isFile_def readFileSync_def
      new_ProfileImpl_def Let_def editedFile_def noUser_def js_or_def otherApp_def
      identifier_ok_def)

section \<open>The cache and the two states\<close>

lemma setAccessToken_cache: "currentProfile (snd (setAccessToken p tok w)) = currentProfile w"
  by (simp add: setAccessToken_def tokenStore_set_def Let_def split: option.splits)

lemma deleteUser_cache:
  "currentProfile w = Some p \<Longrightarrow> currentProfile (snd (deleteUser w)) = Some p"
  by (simp add: deleteUser_def getUser_cached logout_cache)

text \<open>No call clears or replaces a cached instance.\<close>

lemma perform_cache:
  "currentProfile w = Some p \<Longrightarrow> currentProfile (perform c w) = Some p"
  by (cases c)
     (simp_all add: getUser_cached saveUser_cache deleteUser_cache save_cache
        setAccessToken_cache logout_cache)

lemma run_cache:
  "currentProfile w = Some p \<Longrightarrow> currentProfile (run calls w) = Some p"
  unfolding run_def by (induction calls arbitrary: w) (simp_all add: perform_cache)

lemma getUser_fresh_no_file:
  "fst (fileExists w) = Inr False \<Longrightarrow> fst (getUser (restart w)) = Inr None"
  using fileExists_same [of "restart w" w]
  by (simp add: getUser_def loadProfile_no_file)

text \<open>After a \<open>logout\<close> that completed there is no profile file.\<close>

lemma logout_no_file:
  assumes "fst (logout p w) = Inr ()"
  shows "fst (fileExists (snd (logout p w))) = Inr False"
proof -
  have ok: "tokenFault w = None"
    using assms by (cases "tokenFault w") (simp_all add: logout_rejected)
  let ?w1 = "(called (TokenRemove (userName p)) w)\<lparr>tokens := AList.delete (userName p) (tokens w)\<rparr>"
  note lo = logout_ok [OF ok, of p, unfolded Let_def]
  have "fst (unlinkSync ?w1) = Inr () \<or> fst (unlinkSync ?w1) = Inl (FsError ''ENOENT'')"
    using assms unfolding lo by (simp split: if_splits)
  then have "fst (statSync_isFile (snd (unlinkSync ?w1))) = Inl (FsError ''ENOENT'')"
    by (auto simp: unlinkSync_def statSync_isFile_def Let_def split: option.splits node.splits)
  then show ?thesis unfolding lo snd_conv by (rule fileExists_ENOENT)
qed

lemma deleteUser_no_file:
  assumes "fst (deleteUser w) = Inr ()"
  shows "fst (fileExists (snd (deleteUser w))) = Inr False"
proof (cases "getUser w")
  case (Pair res w1)
  show ?thesis
  proof (cases res)
    case (Inl e)
    then show ?thesis using assms Pair by (simp add: deleteUser_def)
  next
    case (Inr r)
    show ?thesis
    proof (cases r)
      case None
      then show ?thesis
        using Pair Inr getUser_None(2) [of w w1] by (simp add: deleteUser_def)
    next
      case (Some p)
      then have d: "deleteUser w = logout p w1" using Pair Inr by (simp add: deleteUser_def)
      show ?thesis using assms unfolding d by (rule logout_no_file)
    qed
  qed
qed

lemma getUser_fresh_after_save:
  assumes "save p w = (Inr r, w1)"
  shows "\<exists>q. fst (getUser (restart w1)) = Inr (Some q)"
  using load_after_save [OF assms] by (auto simp: getUser_def)

text \<open>
  Claim C8, as amended. The module variable \<open>currentProfile\<close> changes in \<open>getUser\<close> only,
  from \<open>null\<close> to the instance it loaded: no sequence of calls clears or replaces a cached
  instance, so \<open>getUser()\<close> keeps returning it, also after \<open>logout()\<close> or \<open>deleteUser()\<close>.
  \<open>saveUser\<close> and \<open>logout\<close> leave the variable as it is; they change the profile file and
  the token store: after a \<open>logout()\<close> or \<open>deleteUser()\<close> that completed, a new process's
  \<open>getUser()\<close> returns \<open>null\<close>, and after a \<open>saveUser\<close> that resolved it returns a Profile.
\<close>

theorem cache_is_never_cleared:
  "(currentProfile w = Some p \<longrightarrow>
      currentProfile (run calls w) = Some p \<and> fst (getUser (run calls w)) = Inr (Some p)) \<and>
   currentProfile (snd (saveUser user tok env w)) = currentProfile w \<and>
   currentProfile (snd (logout q w)) = currentProfile w \<and>
   (fst (logout q w) = Inr () \<longrightarrow> fst (getUser (restart (snd (logout q w)))) = Inr None) \<and>
   (fst (deleteUser w) = Inr () \<longrightarrow> fst (getUser (restart (snd (deleteUser w)))) = Inr None) \<and>
   (\<forall>r. fst (saveUser user tok env w) = Inr r \<longrightarrow>
      (\<exists>q'. fst (getUser (restart (snd (saveUser user tok env w)))) = Inr (Some q')))"
proof (intro conjI impI allI)
  assume c: "currentProfile w = Some p"
  show "currentProfile (run calls w) = Some p" using c by (rule run_cache)
  then show "fst (getUser (run calls w)) = Inr (Some p)" by (simp add: getUser_cached)
next
  show "currentProfile (snd (saveUser user tok env w)) = currentProfile w" by (rule saveUser_cache)
  show "currentProfile (snd (logout q w)) = currentProfile w" by (rule logout_cache)
next
  assume "fst (logout q w) = Inr ()"
  then show "fst (getUser (restart (snd (logout q w)))) = Inr None"
    by (intro getUser_fresh_no_file logout_no_file)
next
  assume "fst (deleteUser w) = Inr ()"
  then show "fst (getUser (restart (snd (deleteUser w)))) = Inr None"
    by (intro getUser_fresh_no_file deleteUser_no_file)
next
  fix r assume "fst (saveUser user tok env w) = Inr r"
  then have "saveUser user tok env w = (Inr r, snd (saveUser user tok env w))"
    by (cases "saveUser user tok env w") simp
  then obtain w2 where "save r w2 = (Inr r, snd (saveUser user tok env w))"
    using saveUser_saved [of user tok env w r "snd (saveUser user tok env w)"] by blast
  then show "\<exists>q'. fst (getUser (restart (snd (saveUser user tok env w)))) = Inr (Some q')"
    by (rule getUser_fresh_after_save)
qed

lemma cached_alice: "currentProfile (snd (getUser loggedIn)) = Some alice"
  by (simp add: getUser_def loadProfile_def fileExists_def statSync_isFile_def readFileSync_def
      new_ProfileImpl_def Let_def loggedIn_def alice_def profile_literal_def js_or_def)

lemma deleteUser_cached_alice:
  "fst (deleteUser (snd (getUser loggedIn))) = Inr ()"
  "node (snd (deleteUser (snd (getUser loggedIn)))) = Absent"
  "tokens (snd (deleteUser (snd (getUser loggedIn)))) = []"
proof -
  have n: "tokenFault (snd (getUser loggedIn)) = None"
    "fsFault (snd (getUser loggedIn)) = None"
    "node (snd (getUser loggedIn)) = RegularFile (JsonText (profile_literal alice))"
    "tokens (snd (getUser loggedIn)) = [(Str ''alice'', ''secret'')]"
    by (simp_all add: getUser_def loadProfile_def fileExists_def statSync_isFile_def
        readFileSync_def new_ProfileImpl_def Let_def loggedIn_def profile_literal_def)
  have d: "deleteUser (snd (getUser loggedIn)) = logout alice (snd (getUser loggedIn))"
    by (simp add: deleteUser_def getUser_cached [OF cached_alice])
  show "fst (deleteUser (snd (getUser loggedIn))) = Inr ()"
    "node (snd (deleteUser (snd (getUser loggedIn)))) = Absent"
    "tokens (snd (deleteUser (snd (getUser loggedIn)))) = []"
    unfolding d logout_ok [OF n(1)] Let_def
    by (simp_all add: unlinkSync_def n alice_def)
qed

theorem cache_is_never_cleared_witness:
  "currentProfile (snd (getUser loggedIn)) = Some alice \<and>
   currentProfile (run [DeleteUser, SaveUser (Obj apiUser) ''fresh'' ''int'', Logout alice, GetUser]
     (snd (getUser loggedIn))) = Some alice \<and>
   fst (deleteUser (snd (getUser loggedIn))) = Inr () \<and>
   fst (getUser (restart (snd (deleteUser (snd (getUser loggedIn)))))) = Inr None \<and>
   fst (logout alice loggedIn) = Inr () \<and>
   fst (getUser (restart (snd (logout alice loggedIn)))) = Inr None \<and>
   fst (saveUser (Obj apiUser) ''fresh'' ''int'' noUser) =
     Inr \<lparr>oid = 0, userId = Str ''u1'', userName = Str ''alice'', displayName = Str ''Alice'',
           email = Str ''alice@example.com'', environment = Str ''int'',
           defaultApp = Undefined\<rparr> \<and>
   (\<exists>q. fst (getUser (restart (snd (saveUser (Obj apiUser) ''fresh'' ''int'' noUser)))) =
      Inr (Some q))"
proof -
  have lo: "fst (logout alice loggedIn) = Inr ()"
    by (simp add: logout_ok Let_def unlinkSync_def loggedIn_def)
  have d: "distinct (map fst apiUser)" by (simp add: apiUser_def)
  have ok: "tokenFault noUser = None" by (simp add: noUser_def)
  have su: "fst (saveUser (Obj apiUser) ''fresh'' ''int'' noUser) =
     Inr \<lparr>oid = 0, userId = Str ''u1'', userName = Str ''alice'', displayName = Str ''Alice'',
           email = Str ''alice@example.com'', environment = Str ''int'',
           defaultApp = Undefined\<rparr>"
    unfolding saveUser_stored [OF ok d] Let_def save_cases
    by (simp add: apiUser_def user_field_def js_or_def noUser_def)
  show ?thesis
    using cache_is_never_cleared [of "snd (getUser loggedIn)" alice
      "[DeleteUser, SaveUser (Obj apiUser) ''fresh'' ''int'', Logout alice, GetUser]"]
      cache_is_never_cleared [of loggedIn alice "[]" "Obj apiUser" "''fresh''" "''int''" alice]
      cache_is_never_cleared [of noUser alice "[]" "Obj apiUser" "''fresh''" "''int''" alice]
      cached_alice deleteUser_cached_alice(1) lo su
    by simp
qed

text \<open>
  The claim as stated fails in the process that cached the Profile: \<open>deleteUser()\<close>
  completes, the file and the token are gone, and \<open>getUser()\<close> still returns the instance.
\<close>

theorem getUser_after_deleteUser_counterexample:
  "fst (getUser loggedIn) = Inr (Some alice) \<and>
   fst (deleteUser (snd (getUser loggedIn))) = Inr () \<and>
   node (snd (deleteUser (snd (getUser loggedIn)))) = Absent \<and>
   tokens (snd (deleteUser (snd (getUser loggedIn)))) = [] \<and>
   fst (getUser (snd (deleteUser (snd (getUser loggedIn))))) = Inr (Some alice)"
proof -
  have "currentProfile (snd (deleteUser (snd (getUser loggedIn)))) = Some alice"
    using cached_alice by (rule deleteUser_cache)
  then have "fst (getUser (snd (deleteUser (snd (getUser loggedIn))))) = Inr (Some alice)"
    by (simp add: getUser_cached)
  then show ?thesis using getUser_loggedIn deleteUser_cached_alice by simp
qed

end
